theory Spec2Isabelle
  imports Main "HOL-Library.AList"
begin

chapter \<open>The WhatsApp gateway: session registry, key store, credential debouncer,
  message normalisation, contact upsert and acknowledgment handling\<close>

text \<open>
  Conventions of the embedding.
  \<^item> A JavaScript string is a \<open>string\<close> holding its UTF-8 bytes. The only non-ASCII
    character the code looks at is U+200E, whose bytes are E2 80 8E.
  \<^item> A value that may be \<open>null\<close> or \<open>undefined\<close> is an \<open>option\<close>.
  \<^item> A thrown error is the \<open>Inl\<close> of a sum; \<open>AppError\<close> is the datatype \<open>app_error\<close>.
  \<^item> Functions of the client libraries (whaileys, whatsapp-web.js, ioredis, JSON) are not
    code of the repository; what they return is a parameter of the function that calls them.
  \<^item> Module-level mutable maps are fields of a state record that every operation takes and
    returns.
\<close>

section \<open>Strings as JavaScript uses them\<close>

definition or_empty :: "string option \<Rightarrow> string" where
  \<comment> \<open>\<open>x || ""\<close> for a string that may be null or undefined\<close>
  "or_empty x = (case x of None \<Rightarrow> [] | Some s \<Rightarrow> s)"

definition truthy :: "string option \<Rightarrow> bool" where
  \<comment> \<open>a string in a condition: null, undefined and the empty string are falsy\<close>
  "truthy x = (case x of None \<Rightarrow> False | Some s \<Rightarrow> s \<noteq> [])"

definition tmpl :: "string option \<Rightarrow> string" where
  \<comment> \<open>a value inside a template literal: null prints as the text null\<close>
  "tmpl x = (case x of None \<Rightarrow> ''null'' | Some s \<Rightarrow> s)"

definition LRM :: string where
  \<comment> \<open>U+200E LEFT-TO-RIGHT MARK, in UTF-8\<close>
  "LRM = [CHR 0xE2, CHR 0x80, CHR 0x8E]"

definition lrm_test :: "string \<Rightarrow> bool" where
  \<comment> \<open>the test of \<open>body[0]\<close> against the pattern of the single character U+200E: \<open>body[0]\<close> is the first character, or undefined for the
      empty string, which the test reads as the text undefined (no match)\<close>
  "lrm_test body = (take 3 body = LRM)"


fun join_with :: "string \<Rightarrow> string list \<Rightarrow> string" where
  \<comment> \<open>\<open>xs.join(sep)\<close>\<close>
  "join_with sep [] = []"
| "join_with sep [x] = x"
| "join_with sep (x # y # ys) = x @ sep @ join_with sep (y # ys)"

definition is_digit :: "char \<Rightarrow> bool" where
  "is_digit c = (c \<in> set ''0123456789'')"

definition digits_only :: "string \<Rightarrow> string" where
  \<comment> \<open>\<open>s.replace(/\D/g, "")\<close> and \<open>s.replace(/[^0-9]/g, "")\<close>\<close>
  "digits_only s = filter is_digit s"

definition ends_with :: "string \<Rightarrow> string \<Rightarrow> bool" where
  "ends_with s suffix = (length suffix \<le> length s \<and> drop (length s - length suffix) s = suffix)"

definition starts_with :: "string \<Rightarrow> string \<Rightarrow> bool" where
  "starts_with s pre = (take (length pre) s = pre)"

section \<open>Canonical payloads (types/ProviderMessage.ts, handlers/handleWhatsappEvents.ts)\<close>

datatype message_type = Chat | Audio | Ptt | Video | Image | Document | Vcard | Sticker | Location

text \<open>\<open>MessageAck = 0 | 1 | 2 | 3 | 4\<close>: pending, server, device, read, played.\<close>

type_synonym message_ack = nat

record message_payload =
  mp_id :: string
  mp_body :: string
  mp_fromMe :: bool
  mp_hasMedia :: bool
  mp_type :: message_type
  mp_timestamp :: nat
  mp_from :: string
  mp_to :: string
  mp_hasQuotedMsg :: "bool option"
  mp_quotedMsgId :: "string option"
  mp_ack :: "message_ack option"

text \<open>
  What a function throws: an \<open>AppError\<close> with one of the messages the code uses, a
  \<open>TypeError\<close> (a property read on undefined), a \<open>SyntaxError\<close> (\<open>JSON.parse\<close>), an
  \<open>Error\<close> with a message of its own (\<open>PlainError\<close>), or whatever a call into a client
  library, the file system or the database rejects with (\<open>LibraryError\<close>).
\<close>

datatype error =
    ERR_WAPP_NOT_INITIALIZED
  | ERR_SENDING_WAPP_MSG
  | ERR_SENDING_WAPP_MEDIA_MSG
  | ERR_NO_MEDIA_DATA
  | ERR_NUMBER_NOT_ON_WHATSAPP
  | TypeError
  | SyntaxError
  | PlainError string
  | LibraryError string

section \<open>The whaileys adapter: normalisation (Implementations/whaileys.ts)\<close>

text \<open>
  The fields of \<open>WAMessage\<close> that the adapter reads. A coordinate of a location is kept as
  the text that JavaScript's number-to-string conversion yields for it, which is all the
  code does with it; a coordinate that is null is \<open>None\<close>.
\<close>

record context_info =
  stanzaId :: "string option"

record extended_text_message =
  et_text :: "string option"
  et_contextInfo :: "context_info option"

record captioned_message =
  caption :: "string option"
  cm_contextInfo :: "context_info option"

record audio_message =
  ptt :: "bool option"

record contact_message =
  vcard :: "string option"

record location_message =
  degreesLatitude :: "string option"
  degreesLongitude :: "string option"
  loc_name :: "string option"

record proto_message =
  conversation :: "string option"
  extendedTextMessage :: "extended_text_message option"
  imageMessage :: "captioned_message option"
  videoMessage :: "captioned_message option"
  documentMessage :: "captioned_message option"
  audioMessage :: "audio_message option"
  contactMessage :: "contact_message option"
  contactsArrayMessage :: "contact_message list option"
  locationMessage :: "location_message option"

record wa_message_key =
  remoteJid :: "string option"
  key_fromMe :: "bool option"
  key_id :: "string option"
  participant :: "string option"

record wa_message =
  msg_key :: wa_message_key
  msg_message :: "proto_message option"
  messageTimestamp :: "nat option"
  msg_status :: "nat option"

text \<open>
  \<open>getContentType\<close> is a function of the whaileys library: it names the content field of a
  message. Every function that calls it takes it as the parameter \<open>gct\<close>.
\<close>

type_synonym content_type_fn = "proto_message option \<Rightarrow> string option"

definition mapMessageType :: "content_type_fn \<Rightarrow> wa_message \<Rightarrow> message_type" where
  "mapMessageType gct msg =
     (let messageType = gct (msg_message msg) in
      if messageType = Some ''audioMessage'' \<and>
         (case msg_message msg of None \<Rightarrow> False
          | Some m \<Rightarrow> (case audioMessage m of None \<Rightarrow> False | Some a \<Rightarrow> ptt a = Some True))
      then Ptt
      else (case map_of
              [(''conversation'', Chat), (''extendedTextMessage'', Chat),
               (''imageMessage'', Image), (''videoMessage'', Video),
               (''audioMessage'', Audio), (''documentMessage'', Document),
               (''stickerMessage'', Sticker), (''locationMessage'', Location),
               (''contactMessage'', Vcard), (''contactsArrayMessage'', Vcard)]
              (or_empty messageType) of
            None \<Rightarrow> Chat | Some t \<Rightarrow> t))"

definition gmaps_url :: "string \<Rightarrow> string \<Rightarrow> string" where
  "gmaps_url lat lng = ''https://maps.google.com/maps?q='' @ lat @ ''%2C'' @ lng @ ''&z=17&hl=pt-BR''"

definition location_description :: "location_message \<Rightarrow> string" where
  \<comment> \<open>\<open>location.name\<close> when truthy, else the two coordinates separated by a comma and a space\<close>
  "location_description l =
     (if truthy (loc_name l) then or_empty (loc_name l)
      else tmpl (degreesLatitude l) @ '', '' @ tmpl (degreesLongitude l))"

definition sub_message :: "wa_message \<Rightarrow> (proto_message \<Rightarrow> 'a option) \<Rightarrow> 'a option" where
  \<comment> \<open>\<open>msg.message?.field\<close>\<close>
  "sub_message msg field = (case msg_message msg of None \<Rightarrow> None | Some m \<Rightarrow> field m)"

definition getMessageBody :: "content_type_fn \<Rightarrow> wa_message \<Rightarrow> string" where
  "getMessageBody gct msg =
     (let messageType = gct (msg_message msg) in
      if messageType = Some ''conversation'' then or_empty (sub_message msg conversation)
      else if messageType = Some ''extendedTextMessage'' then
        or_empty (case sub_message msg extendedTextMessage of None \<Rightarrow> None | Some e \<Rightarrow> et_text e)
      else if messageType = Some ''imageMessage'' then
        or_empty (case sub_message msg imageMessage of None \<Rightarrow> None | Some e \<Rightarrow> caption e)
      else if messageType = Some ''videoMessage'' then
        or_empty (case sub_message msg videoMessage of None \<Rightarrow> None | Some e \<Rightarrow> caption e)
      else if messageType = Some ''documentMessage'' then
        or_empty (case sub_message msg documentMessage of None \<Rightarrow> None | Some e \<Rightarrow> caption e)
      else if messageType = Some ''contactMessage'' then
        or_empty (case sub_message msg contactMessage of None \<Rightarrow> None | Some e \<Rightarrow> vcard e)
      else if messageType = Some ''contactsArrayMessage'' then
        join_with [CHR 0x0A]
          (map (\<lambda>c. or_empty (vcard c))
             (case sub_message msg contactsArrayMessage of None \<Rightarrow> [] | Some cs \<Rightarrow> cs))
      else if messageType = Some ''locationMessage'' then
        (case sub_message msg locationMessage of
           None \<Rightarrow> []
         | Some l \<Rightarrow>
             gmaps_url (tmpl (degreesLatitude l)) (tmpl (degreesLongitude l))
               @ ''|'' @ location_description l)
      else [])"


definition hasMedia :: "content_type_fn \<Rightarrow> wa_message \<Rightarrow> bool" where
  "hasMedia gct msg =
     (or_empty (gct (msg_message msg)) \<in> set
        [''imageMessage'', ''videoMessage'', ''audioMessage'', ''documentMessage'',
         ''stickerMessage''])"

definition mapMessageAck :: "nat option \<Rightarrow> message_ack" where
  "mapMessageAck status =
     (case status of
        None \<Rightarrow> 0
      | Some s \<Rightarrow> if s \<ge> 4 then 4 else if s \<ge> 3 then 3 else if s \<ge> 2 then 2
                  else if s \<ge> 1 then 1 else 0)"

definition validTypes :: "string list" where
  "validTypes =
     [''conversation'', ''extendedTextMessage'', ''imageMessage'', ''videoMessage'',
      ''audioMessage'', ''documentMessage'', ''stickerMessage'', ''locationMessage'',
      ''contactMessage'', ''contactsArrayMessage'']"

definition allowedFromMeTypes :: "string list" where
  "allowedFromMeTypes =
     [''locationMessage'', ''conversation'', ''extendedTextMessage'', ''contactMessage'']"

definition shouldHandleMessage :: "content_type_fn \<Rightarrow> wa_message \<Rightarrow> bool" where
  "shouldHandleMessage gct msg =
     (let messageType = gct (msg_message msg) in
      if or_empty messageType \<notin> set validTypes then False
      else if lrm_test (getMessageBody gct msg) then False
      else if key_fromMe (msg_key msg) \<noteq> Some True then True
      else hasMedia gct msg \<or> or_empty messageType \<in> set allowedFromMeTypes)"

definition isJidBroadcast :: "string \<Rightarrow> bool" where
  \<comment> \<open>Modelled from the whaileys library: \<open>jid?.endsWith('@broadcast')\<close>\<close>
  "isJidBroadcast jid = ends_with jid ''@broadcast''"

definition shouldIgnoreJid :: "string option \<Rightarrow> bool" where
  \<comment> \<open>the predicate that \<open>init\<close> hands to the socket; a jid that is not a string is \<open>None\<close>\<close>
  "shouldIgnoreJid j =
     (case j of
        None \<Rightarrow> False
      | Some jid \<Rightarrow> isJidBroadcast jid \<or> ends_with jid ''newsletter'' \<or> jid = ''status@broadcast'')"


section \<open>The whatsapp-web.js adapter: normalisation (Implementations/wwebjs.ts)\<close>

record wbot_location =
  latitude :: "string option"
  longitude :: "string option"
  description :: "string option"

record wbot_message =
  wm_id :: string
  wm_body :: string
  wm_fromMe :: bool
  wm_hasMedia :: bool
  wm_type :: string
  wm_timestamp :: nat
  wm_from :: string
  wm_to :: string
  wm_hasQuotedMsg :: bool
  wm_ack :: "nat option"
  wm_location :: "wbot_location option"

definition wwebjs_mapMessageType :: "string \<Rightarrow> message_type" where
  "wwebjs_mapMessageType wbotType =
     (case map_of
        [(''chat'', Chat), (''audio'', Audio), (''ptt'', Ptt), (''video'', Video),
         (''image'', Image), (''document'', Document), (''vcard'', Vcard),
         (''sticker'', Sticker), (''location'', Location)] wbotType of
        None \<Rightarrow> Chat | Some t \<Rightarrow> t)"

definition wwebjs_mapMessageAck :: "nat option \<Rightarrow> message_ack" where
  \<comment> \<open>\<open>ackMap[wbotAck] || 0\<close>; an ack that is no key of the table is \<open>None\<close> or above 4\<close>
  "wwebjs_mapMessageAck wbotAck =
     (case wbotAck of None \<Rightarrow> 0 | Some a \<Rightarrow> if a \<le> 4 then a else 0)"

definition convertToProviderMessage :: "wbot_message \<Rightarrow> message_payload" where
  "convertToProviderMessage m =
     \<lparr> mp_id = wm_id m, mp_body = wm_body m, mp_fromMe = wm_fromMe m,
       mp_hasMedia = wm_hasMedia m, mp_type = wwebjs_mapMessageType (wm_type m),
       mp_timestamp = wm_timestamp m, mp_from = wm_from m, mp_to = wm_to m,
       mp_hasQuotedMsg = Some (wm_hasQuotedMsg m), mp_quotedMsgId = None,
       mp_ack = Some (wwebjs_mapMessageAck (wm_ack m)) \<rparr>"



definition wwebjs_shouldHandleMessage :: "wbot_message \<Rightarrow> bool" where
  "wwebjs_shouldHandleMessage msg =
     (if wm_from msg = ''status@broadcast'' then False
      else if \<not> (wm_type msg = ''chat'' \<or> wm_type msg = ''audio'' \<or> wm_type msg = ''ptt'' \<or>
                 wm_type msg = ''video'' \<or> wm_type msg = ''image'' \<or>
                 wm_type msg = ''document'' \<or> wm_type msg = ''vcard'' \<or>
                 wm_type msg = ''sticker'' \<or> wm_type msg = ''location'') then False
      else if lrm_test (wm_body msg) then False
      else if wm_fromMe msg \<and>
              (\<not> wm_hasMedia msg \<and> wm_type msg \<noteq> ''location'' \<and> wm_type msg \<noteq> ''chat'' \<and>
               wm_type msg \<noteq> ''vcard'') then False
      else True)"

section \<open>The key store (libs/redisStore.ts, services/WppKeyServices, the WppKeys migration)\<close>

text \<open>
  The hot cache is the Redis client of \<open>redisStore.ts\<close>: \<open>None\<close> while \<open>redisClient\<close> is
  null, otherwise the keys it holds, each with its value and the second at which it
  expires. The durable store is the table \<open>WppKeys\<close>, whose columns are the connection id,
  the type, the key id and the value; the table has no device column. A command that the
  Redis server or the database rejects throws inside the \<open>try\<close> of its caller: the flags
  \<open>redis_rejects\<close> and \<open>db_rejects\<close> say whether commands are rejected.
  \<open>JSON.stringify\<close> and \<open>JSON.parse\<close> (with the library's replacer and reviver) are the
  parameters \<open>stringify\<close> and \<open>parse\<close>; \<open>parse\<close> is \<open>None\<close> where \<open>JSON.parse\<close> throws.
\<close>

definition REDIS_SESSION_TTL :: nat where
  "REDIS_SESSION_TTL = 604800"

definition REDIS_KEY_TYPES :: "string list" where
  "REDIS_KEY_TYPES = [''session'', ''sender-keys'', ''sender-key-memory'']"

record wpp_key =
  connectionId :: nat
  key_type :: string
  keyId :: string
  key_value :: string

record key_store =
  redisClient :: "(string \<rightharpoonup> string \<times> nat) option"
  redis_rejects :: bool
  WppKeys :: "wpp_key list"
  db_rejects :: bool

definition digit_char :: "nat \<Rightarrow> char" where
  "digit_char d = ''0123456789'' ! d"

function show_nat :: "nat \<Rightarrow> string" where
  \<comment> \<open>a non-negative integer inside a template literal\<close>
  "show_nat n = (if n < 10 then [digit_char n] else show_nat (n div 10) @ [digit_char (n mod 10)])"
  by pat_completeness auto
termination
  by (relation "measure id") auto

definition redis_key :: "nat \<Rightarrow> nat \<Rightarrow> string \<Rightarrow> string \<Rightarrow> string" where
  "redis_key connId deviceId ktype kid =
     ''wpp:'' @ show_nat connId @ '':'' @ show_nat deviceId @ '':'' @ ktype @ '':'' @ kid"

definition setInRedis :: "key_store \<Rightarrow> nat \<Rightarrow> string \<Rightarrow> string \<Rightarrow> key_store" where
  \<comment> \<open>\<open>now\<close> is the second at which the command runs\<close>
  "setInRedis ks now key data =
     (case redisClient ks of
        None \<Rightarrow> ks
      | Some c \<Rightarrow>
          if redis_rejects ks then ks
          else ks\<lparr> redisClient := Some (c(key \<mapsto> (data, now + REDIS_SESSION_TTL))) \<rparr>)"

definition getFromRedis :: "key_store \<Rightarrow> nat \<Rightarrow> string \<Rightarrow> string option" where
  "getFromRedis ks now key =
     (case redisClient ks of
        None \<Rightarrow> None
      | Some c \<Rightarrow>
          if redis_rejects ks then None
          else (case c key of
                  None \<Rightarrow> None
                | Some (v, expires) \<Rightarrow> if expires \<le> now \<or> v = [] then None else Some v))"

definition same_key :: "nat \<Rightarrow> string \<Rightarrow> string \<Rightarrow> wpp_key \<Rightarrow> bool" where
  \<comment> \<open>the \<open>where\<close> clause of the lookup, and the columns of the unique index\<close>
  "same_key connId ktype kid r = (connectionId r = connId \<and> key_type r = ktype \<and> keyId r = kid)"

definition upsert :: "wpp_key \<Rightarrow> wpp_key list \<Rightarrow> wpp_key list" where
  \<comment> \<open>\<open>WppKey.upsert\<close>: the row that conflicts on the unique index is updated, else the
      row is inserted\<close>
  "upsert row rows =
     (if list_ex (same_key (connectionId row) (key_type row) (keyId row)) rows
      then map (\<lambda>r. if same_key (connectionId row) (key_type row) (keyId row) r
                       then r\<lparr> key_value := key_value row \<rparr> else r) rows
      else rows @ [row])"

definition StoreWppSessionKeys ::
  "('v \<Rightarrow> string) \<Rightarrow> key_store \<Rightarrow> nat \<Rightarrow> nat \<Rightarrow> nat \<Rightarrow> string \<Rightarrow> string \<Rightarrow> 'v \<Rightarrow> key_store" where
  "StoreWppSessionKeys stringify ks now connId deviceId ktype kid v =
     (let valueJson = stringify v in
      if ktype \<in> set REDIS_KEY_TYPES
      then setInRedis ks now (redis_key connId deviceId ktype kid) valueJson
      else if db_rejects ks then ks
      else ks\<lparr> WppKeys :=
             upsert \<lparr> connectionId = connId, key_type = ktype, keyId = kid,
                      key_value = valueJson \<rparr> (WppKeys ks) \<rparr>)"

fun get_redis_keys ::
  "(string \<Rightarrow> 'v option) \<Rightarrow> key_store \<Rightarrow> nat \<Rightarrow> (string \<Rightarrow> string) \<Rightarrow> string list \<Rightarrow>
   (string \<rightharpoonup> 'v) \<Rightarrow> error + (string \<rightharpoonup> 'v)" where
  \<comment> \<open>the hot branch: nothing catches a \<open>JSON.parse\<close> that throws\<close>
  "get_redis_keys parse ks now key [] acc = Inr acc"
| "get_redis_keys parse ks now key (i # ids) acc =
     (case getFromRedis ks now (key i) of
        None \<Rightarrow> get_redis_keys parse ks now key ids acc
      | Some stored \<Rightarrow>
          (case parse stored of
             None \<Rightarrow> Inl SyntaxError
           | Some v \<Rightarrow> get_redis_keys parse ks now key ids (acc(i \<mapsto> v))))"

fun get_db_keys ::
  "(string \<Rightarrow> 'v option) \<Rightarrow> wpp_key list \<Rightarrow> nat \<Rightarrow> string \<Rightarrow> string list \<Rightarrow>
   (string \<rightharpoonup> 'v) \<Rightarrow> (string \<rightharpoonup> 'v)" where
  \<comment> \<open>the durable branch, the lookups taken in the order of \<open>ids\<close>: the \<open>catch\<close> ends the
      lookups at the first \<open>JSON.parse\<close> that throws and returns what was collected\<close>
  "get_db_keys parse rows connId ktype [] acc = acc"
| "get_db_keys parse rows connId ktype (i # ids) acc =
     (case find (same_key connId ktype i) rows of
        None \<Rightarrow> get_db_keys parse rows connId ktype ids acc
      | Some keyRecord \<Rightarrow>
          (case parse (key_value keyRecord) of
             None \<Rightarrow> acc
           | Some v \<Rightarrow> get_db_keys parse rows connId ktype ids (acc(i \<mapsto> v))))"

definition GetWppSessionKeys ::
  "(string \<Rightarrow> 'v option) \<Rightarrow> key_store \<Rightarrow> nat \<Rightarrow> nat \<Rightarrow> nat \<Rightarrow> string \<Rightarrow> string list \<Rightarrow>
   error + (string \<rightharpoonup> 'v)" where
  "GetWppSessionKeys parse ks now connId deviceId ktype ids =
     (if ktype \<in> set REDIS_KEY_TYPES
      then get_redis_keys parse ks now (redis_key connId deviceId ktype) ids Map.empty
      else if db_rejects ks then Inr Map.empty
      else Inr (get_db_keys parse (WppKeys ks) connId ktype ids Map.empty))"

text \<open>The states in which every stored text is one that \<open>JSON.parse\<close> reads.\<close>

definition cache_parses :: "(string \<Rightarrow> 'v option) \<Rightarrow> key_store \<Rightarrow> bool" where
  "cache_parses parse ks =
     (case redisClient ks of
        None \<Rightarrow> True
      | Some c \<Rightarrow> \<forall>k v e. c k = Some (v, e) \<longrightarrow> parse v \<noteq> None)"

definition rows_parse :: "(string \<Rightarrow> 'v option) \<Rightarrow> key_store \<Rightarrow> bool" where
  "rows_parse parse ks = list_all (\<lambda>r. parse (key_value r) \<noteq> None) (WppKeys ks)"

section \<open>The whaileys adapter: sessions and credentials (Implementations/whaileys.ts)\<close>

text \<open>
  A socket made by \<open>makeWASocket\<close> is an object that the registry, the event handlers and
  the callers of \<open>getWbot\<close> share, and that is still there once the registry has dropped
  it. The state therefore keeps every socket ever made in \<open>heap\<close>, addressed by its
  position, and the module's maps hold addresses. Of a socket the model keeps its \<open>id\<close>,
  the events on which the adapter has a listener (the listeners that the library's store
  binds are the library's own), whether \<open>end\<close> was called on it, whether its web socket
  was closed, and \<open>user?.id\<close>.
\<close>

record session =
  sess_id :: nat
  listeners :: "string list"
  ended :: bool
  ws_closed :: bool
  user_id :: "string option"

text \<open>
  A write to the connection's row, \<open>whatsapp.update({...})\<close>: the columns it sets.
\<close>

record whatsapp_update =
  upd_session :: "string option"
  upd_status :: "string option"
  upd_qrcode :: "string option"
  upd_retries :: "nat option"

datatype message_content =
    TextContent string "(string \<times> string option) option"
  | ImageContent string "string option" string
  | VideoContent string "string option" string
  | AudioContent string string bool
  | DocumentContent string "string option" string string
  | DeleteContent string string bool

text \<open>
  What the adapter does to the world outside its own maps, in the order in which it does
  it: the writes to the connection's row, the notifications, the calls into a socket, the
  delay before a reconnection and the call of \<open>init\<close> that follows it (\<open>init\<close> is not
  awaited: it runs as a step of its own).
\<close>

datatype effect =
    WhatsappUpdate nat whatsapp_update
  | IoEmit nat
  | SocketEnd nat
  | WsClose nat
  | SocketLogout nat
  | SocketSend nat string message_content
  | ClearSessionKeys nat
  | Sleep nat
  | InitCall nat

text \<open>
  A debounce timer: the millisecond at which it is due, and the credentials its callback
  holds. Credentials are kept as the text that \<open>saveSessionCreds\<close> serialises.
\<close>

type_synonym creds = string

record wstate =
  heap :: "session list"
  sessions :: "nat \<rightharpoonup> nat"
  stores :: "nat \<rightharpoonup> nat"
  next_store :: nat
  credsDebounceTimers :: "(nat \<times> nat \<times> creds) list"
  pendingCredsSaves :: "(nat \<times> creds) list"
  now_ms :: nat
  effects :: "effect list"

definition initial_wstate :: wstate where
  "initial_wstate =
     \<lparr> heap = [], sessions = Map.empty, stores = Map.empty, next_store = 0,
       credsDebounceTimers = [], pendingCredsSaves = [], now_ms = 0, effects = [] \<rparr>"

definition emit :: "effect \<Rightarrow> wstate \<Rightarrow> wstate" where
  "emit e st = st\<lparr> effects := effects st @ [e] \<rparr>"

definition on_socket :: "nat \<Rightarrow> (session \<Rightarrow> session) \<Rightarrow> wstate \<Rightarrow> wstate" where
  \<comment> \<open>a change to the socket at an address\<close>
  "on_socket a f st = st\<lparr> heap := (heap st)[a := f (heap st ! a)] \<rparr>"

definition removeAllListeners :: "string \<Rightarrow> session \<Rightarrow> session" where
  "removeAllListeners ev s = s\<lparr> listeners := filter (\<lambda>e. e \<noteq> ev) (listeners s) \<rparr>"

definition add_listener :: "string \<Rightarrow> session \<Rightarrow> session" where
  \<comment> \<open>\<open>wbot.ev.on(ev, ...)\<close>\<close>
  "add_listener ev s = s\<lparr> listeners := listeners s @ [ev] \<rparr>"

definition assertUnique :: "nat \<Rightarrow> wstate \<Rightarrow> wstate" where
  "assertUnique sessionId st =
     (case sessions st sessionId of
        None \<Rightarrow> st
      | Some wbot \<Rightarrow>
          emit (SocketEnd wbot)
            (on_socket wbot (\<lambda>s. s\<lparr> ended := True \<rparr>)
              ((on_socket wbot (removeAllListeners ''connection.update'') st)
                 \<lparr> sessions := (sessions st)(sessionId := None),
                   stores := (stores st)(sessionId := None) \<rparr>)))"

subsection \<open>The credential debouncer\<close>

definition saveSessionCreds :: "nat \<Rightarrow> creds \<Rightarrow> wstate \<Rightarrow> wstate" where
  \<comment> \<open>a failure of the write is caught and logged\<close>
  "saveSessionCreds sessionId c st =
     emit (WhatsappUpdate sessionId
             \<lparr> upd_session = Some c, upd_status = Some ''CONNECTED'', upd_qrcode = Some [],
               upd_retries = None \<rparr>) st"

definition flushPendingCredsSave :: "nat \<Rightarrow> wstate \<Rightarrow> wstate" where
  "flushPendingCredsSave sessionId st =
     (let st1 = st\<lparr> credsDebounceTimers := AList.delete sessionId (credsDebounceTimers st) \<rparr> in
      case map_of (pendingCredsSaves st1) sessionId of
        None \<Rightarrow> st1
      | Some c \<Rightarrow>
          saveSessionCreds sessionId c
            (st1\<lparr> pendingCredsSaves := AList.delete sessionId (pendingCredsSaves st1) \<rparr>))"

definition debouncedSaveCreds :: "nat \<Rightarrow> creds \<Rightarrow> nat \<Rightarrow> wstate \<Rightarrow> wstate" where
  \<comment> \<open>\<open>clearTimeout\<close> of the timer in the map, then a new pending value and a new timer\<close>
  "debouncedSaveCreds sessionId c delayMs st =
     st\<lparr> pendingCredsSaves := AList.update sessionId c (pendingCredsSaves st),
         credsDebounceTimers :=
           AList.update sessionId (now_ms st + delayMs, c)
             (AList.delete sessionId (credsDebounceTimers st)) \<rparr>"

definition on_creds_update :: "nat \<Rightarrow> creds \<Rightarrow> wstate \<Rightarrow> wstate" where
  \<comment> \<open>the listener of \<open>creds.update\<close>; \<open>c\<close> is what \<open>state.creds\<close> holds at the event\<close>
  "on_creds_update sessionId c st = debouncedSaveCreds sessionId c 1000 st"

definition timer_callback :: "nat \<times> nat \<times> creds \<Rightarrow> wstate \<Rightarrow> wstate" where
  "timer_callback t st =
     (case t of (sessionId, due, c) \<Rightarrow>
        saveSessionCreds sessionId c
          (st\<lparr> credsDebounceTimers := AList.delete sessionId (credsDebounceTimers st),
               pendingCredsSaves := AList.delete sessionId (pendingCredsSaves st) \<rparr>))"

definition due_timers :: "wstate \<Rightarrow> (nat \<times> nat \<times> creds) list" where
  \<comment> \<open>the timers that have run out, the earliest first\<close>
  "due_timers st =
     sort_key (\<lambda>t. fst (snd t))
       (filter (\<lambda>t. fst (snd t) \<le> now_ms st) (credsDebounceTimers st))"

definition advance :: "nat \<Rightarrow> wstate \<Rightarrow> wstate" where
  \<comment> \<open>\<open>d\<close> milliseconds pass with no other event: the timers that run out fire\<close>
  "advance d st =
     (let st1 = st\<lparr> now_ms := now_ms st + d \<rparr> in fold timer_callback (due_timers st1) st1)"

definition creds_writes :: "nat \<Rightarrow> wstate \<Rightarrow> creds list" where
  \<comment> \<open>the credentials written to the row of a connection, in order\<close>
  "creds_writes sessionId st =
     concat (map (\<lambda>e. case e of
                        WhatsappUpdate i u \<Rightarrow>
                          (if i = sessionId then (case upd_session u of None \<Rightarrow> [] | Some c \<Rightarrow> [c])
                           else [])
                      | _ \<Rightarrow> []) (effects st))"

fun burst :: "nat \<Rightarrow> (nat \<times> creds) list \<Rightarrow> wstate \<Rightarrow> wstate" where
  \<comment> \<open>credential events of one connection, each after its delay since the event before\<close>
  "burst sessionId [] st = st"
| "burst sessionId ((d, c) # evs) st = burst sessionId evs (on_creds_update sessionId c (advance d st))"

definition pending_write :: "nat \<Rightarrow> wstate \<Rightarrow> effect list" where
  \<comment> \<open>the write that a flush for a connection performs in a state: the pending
      credentials, if there are any\<close>
  "pending_write sessionId st =
     (case map_of (pendingCredsSaves st) sessionId of
        None \<Rightarrow> []
      | Some c \<Rightarrow>
          [WhatsappUpdate sessionId
             \<lparr> upd_session = Some c, upd_status = Some ''CONNECTED'', upd_qrcode = Some [],
               upd_retries = None \<rparr>])"

definition timers_of :: "nat \<Rightarrow> wstate \<Rightarrow> (nat \<times> nat \<times> creds) list" where
  \<comment> \<open>the running debounce timers of a connection\<close>
  "timers_of sessionId st = filter (\<lambda>t. fst t = sessionId) (credsDebounceTimers st)"

subsection \<open>The session registry\<close>

definition session_events :: "string list" where
  \<comment> \<open>the events whose listeners \<open>removeSession\<close> removes\<close>
  "session_events =
     [''connection.update'', ''creds.update'', ''messages.upsert'', ''messages.update'',
      ''message-receipt.update'', ''presence.update'', ''groups.upsert'', ''groups.update'',
      ''group-participants.update'', ''contacts.upsert'', ''contacts.update'',
      ''chats.upsert'', ''chats.update'', ''chats.delete'', ''blocklist.set'',
      ''blocklist.update'']"

definition removeSession :: "nat \<Rightarrow> wstate \<Rightarrow> wstate" where
  \<comment> \<open>a call that no other step interrupts; an error of \<open>end\<close> or of the closing of the
      web socket is caught and logged\<close>
  "removeSession whatsappId st0 =
     (let st = flushPendingCredsSave whatsappId st0;
          st1 = (case sessions st whatsappId of
                   None \<Rightarrow> st
                 | Some wbot \<Rightarrow>
                     emit (WsClose wbot)
                       (on_socket wbot (\<lambda>s. s\<lparr> ws_closed := True \<rparr>)
                         (emit (SocketEnd wbot)
                           (on_socket wbot (\<lambda>s. s\<lparr> ended := True \<rparr>)
                             (on_socket wbot (\<lambda>s. fold removeAllListeners session_events s) st)))))
      in st1\<lparr> sessions := (sessions st1)(whatsappId := None),
              stores := (stores st1)(whatsappId := None) \<rparr>)"

text \<open>
  \<open>init\<close> awaits between the registration of its store and the making of the socket, so
  it is two steps, and steps of other calls may run in between. From \<open>assertUnique\<close> to the
  registration of the listeners nothing is awaited: the second step is atomic.
  \<open>me\<close> is the \<open>me.id\<close> of the stored credentials, from which the library fills \<open>wbot.user\<close>.
\<close>

definition init_store :: "nat \<Rightarrow> wstate \<Rightarrow> wstate" where
  \<comment> \<open>\<open>stores.set(sessionId, makeInMemoryStore(...))\<close>\<close>
  "init_store sessionId st =
     st\<lparr> stores := (stores st)(sessionId \<mapsto> next_store st), next_store := Suc (next_store st) \<rparr>"

definition makeWASocket :: "nat \<Rightarrow> string option \<Rightarrow> session" where
  \<comment> \<open>the new socket, with \<open>wbot.id\<close> set\<close>
  "makeWASocket sessionId me =
     \<lparr> sess_id = sessionId, listeners = [], ended = False, ws_closed = False, user_id = me \<rparr>"

definition init_listeners :: "string list" where
  \<comment> \<open>the events on which \<open>init\<close> registers a listener, in its order\<close>
  "init_listeners =
     [''creds.update'', ''messages.upsert'', ''connection.update'', ''messages.update'',
      ''message-receipt.update'']"

definition init_socket :: "nat \<Rightarrow> string option \<Rightarrow> wstate \<Rightarrow> wstate" where
  "init_socket sessionId me st0 =
     (let st = assertUnique sessionId st0;
          wbot = length (heap st);
          st1 = st\<lparr> heap := heap st @ [makeWASocket sessionId me],
                   sessions := (sessions st)(sessionId \<mapsto> wbot) \<rparr>
      in on_socket wbot (\<lambda>s. fold add_listener init_listeners s) st1)"

definition init :: "nat \<Rightarrow> string option \<Rightarrow> wstate \<Rightarrow> wstate" where
  \<comment> \<open>a call of \<open>init\<close> that no other step interrupts\<close>
  "init sessionId me st = init_socket sessionId me (init_store sessionId st)"

datatype init_step = InitStore nat | InitSocket nat "string option"

fun run_init_step :: "init_step \<Rightarrow> wstate \<Rightarrow> wstate" where
  "run_init_step (InitStore i) st = init_store i st"
| "run_init_step (InitSocket i me) st = init_socket i me st"

definition step_id :: "init_step \<Rightarrow> nat option" where
  \<comment> \<open>the connection for which a step makes a socket\<close>
  "step_id s = (case s of InitStore i \<Rightarrow> None | InitSocket i me \<Rightarrow> Some i)"

definition live_handles :: "wstate \<Rightarrow> nat \<Rightarrow> nat list" where
  \<comment> \<open>the sockets of a connection on which \<open>end\<close> was never called\<close>
  "live_handles st i =
     filter (\<lambda>a. sess_id (heap st ! a) = i \<and> \<not> ended (heap st ! a)) [0..<length (heap st)]"

definition torn_down :: "session \<Rightarrow> bool" where
  \<comment> \<open>what \<open>assertUnique\<close> does to a socket: no listener of \<open>connection.update\<close>, ended\<close>
  "torn_down s = (ended s \<and> ''connection.update'' \<notin> set (listeners s))"

definition registry_ok :: "wstate \<Rightarrow> bool" where
  \<comment> \<open>a socket is registered under its own id or torn down, and the registry holds
      sockets that exist and were not ended\<close>
  "registry_ok st =
     (list_all (\<lambda>a. sessions st (sess_id (heap st ! a)) = Some a \<or> torn_down (heap st ! a))
        [0..<length (heap st)]
      \<and> (\<forall>i a. sessions st i = Some a \<longrightarrow>
            a < length (heap st) \<and> sess_id (heap st ! a) = i \<and> \<not> ended (heap st ! a)))"

definition getWbot :: "wstate \<Rightarrow> nat \<Rightarrow> error + nat" where
  "getWbot st sessionId =
     (case sessions st sessionId of None \<Rightarrow> Inl ERR_WAPP_NOT_INITIALIZED | Some wbot \<Rightarrow> Inr wbot)"

subsection \<open>Logout and the listener of connection.update\<close>

definition logout :: "bool \<Rightarrow> nat \<Rightarrow> wstate \<Rightarrow> wstate" where
  \<comment> \<open>\<open>found\<close>: whether \<open>Whatsapp.findByPk(sessionId)\<close> finds the row. A rejection of
      \<open>wbot.logout()\<close> is caught and logged.\<close>
  "logout found sessionId st0 =
     (let st = flushPendingCredsSave sessionId st0;
          st1 = (case sessions st sessionId of
                   None \<Rightarrow> st | Some wbot \<Rightarrow> emit (SocketLogout wbot) st);
          st2 = removeSession sessionId st1;
          st3 = (if found
                 then emit (IoEmit sessionId)
                        (emit (WhatsappUpdate sessionId
                                 \<lparr> upd_session = Some [], upd_status = Some ''DISCONNECTED'',
                                   upd_qrcode = Some [], upd_retries = Some 0 \<rparr>) st2)
                 else st2)
      in emit (ClearSessionKeys sessionId) st3)"

datatype connection_state = ConnClose | ConnOpen | ConnConnecting

record connection_update =
  connection :: "connection_state option"
  statusCode :: "nat option"
  errorMessage :: string
  qr :: "string option"

definition loggedOut :: nat where
  \<comment> \<open>\<open>DisconnectReason.loggedOut\<close> of the library\<close>
  "loggedOut = 401"

definition status_update :: "string \<Rightarrow> string option \<Rightarrow> nat option \<Rightarrow> whatsapp_update" where
  "status_update status qrcode retries =
     \<lparr> upd_session = None, upd_status = Some status, upd_qrcode = qrcode, upd_retries = retries \<rparr>"

definition on_open_and_qr :: "bool \<Rightarrow> nat \<Rightarrow> connection_update \<Rightarrow> wstate \<Rightarrow> wstate" where
  \<comment> \<open>the last two blocks of the listener\<close>
  "on_open_and_qr found sessionId u st0 =
     (let st1 = (if connection u = Some ConnOpen
                 then (if found then emit (IoEmit sessionId) else (\<lambda>x. x))
                        (emit (WhatsappUpdate sessionId (status_update ''CONNECTED'' (Some []) (Some 0)))
                          (flushPendingCredsSave sessionId st0))
                 else st0)
      in (case qr u of
            None \<Rightarrow> st1
          | Some code \<Rightarrow>
              emit (IoEmit sessionId)
                (emit (WhatsappUpdate sessionId (status_update ''qrcode'' (Some code) None)) st1)))"

definition on_connection_update :: "bool \<Rightarrow> nat \<Rightarrow> connection_update \<Rightarrow> wstate \<Rightarrow> wstate" where
  \<comment> \<open>\<open>found\<close>: whether \<open>Whatsapp.findByPk(sessionId)\<close> finds the row\<close>
  "on_connection_update found sessionId u st =
     (if connection u = Some ConnClose then
        (let disconnected =
               (\<lambda>s. (if found then emit (IoEmit sessionId) else (\<lambda>x. x))
                      (emit (WhatsappUpdate sessionId
                               (status_update ''DISCONNECTED'' (Some []) (Some 0))) s))
         in if errorMessage u = ''Intentional Logout''
            then removeSession sessionId (emit (ClearSessionKeys sessionId) (disconnected st))
            else if statusCode u = Some loggedOut
            then removeSession sessionId (disconnected st)
            else on_open_and_qr found sessionId u
                   (emit (InitCall sessionId)
                     (emit (Sleep 3000)
                       (emit (IoEmit sessionId)
                         (emit (WhatsappUpdate sessionId (status_update ''OPENING'' None None))
                           (flushPendingCredsSave sessionId st))))))
      else on_open_and_qr found sessionId u st)"

subsection \<open>Sending and number checks\<close>

definition c_us_suffixes :: "string list" where
  \<comment> \<open>what the pattern \<open>/@c\.us$/i\<close> matches\<close>
  "c_us_suffixes =
     [''@c.us'', ''@C.us'', ''@c.Us'', ''@c.uS'', ''@C.Us'', ''@C.uS'', ''@c.US'', ''@C.US'']"

definition normalizeJid :: "string \<Rightarrow> string" where
  "normalizeJid jid =
     (if jid = [] then jid
      else if CHR ''@'' \<notin> set jid then jid @ ''@s.whatsapp.net''
      else if list_ex (ends_with jid) c_us_suffixes
      then take (length jid - 5) jid @ ''@s.whatsapp.net''
      else jid)"

record send_message_options =
  quotedMessageId :: "string option"
  quotedMessageFromMe :: "bool option"
  linkPreview :: "bool option"

record send_media_options =
  smo_caption :: "string option"
  sendAudioAsVoice :: "bool option"
  sendMediaAsDocument :: "bool option"
  smo_quotedMessageId :: "string option"

record provider_media_input =
  media_filename :: string
  media_mimetype :: string
  media_path :: "string option"
  media_data :: "string option"

text \<open>
  \<open>wbot.sendMessage\<close> is the library's: \<open>resp\<close> is what the call settles to, a rejection or
  the sent message (which may be undefined). \<open>now\<close> is \<open>Date.now()\<close>. Every function returns
  its result and the calls into the network it made.
\<close>

definition sendMessage ::
  "wstate \<Rightarrow> nat \<Rightarrow> nat \<Rightarrow> string \<Rightarrow> string \<Rightarrow> send_message_options option \<Rightarrow>
   error + wa_message option \<Rightarrow> (error + message_payload) \<times> effect list" where
  "sendMessage st now sessionId to body options resp =
     (case getWbot st sessionId of
        Inl e \<Rightarrow> (Inl e, [])
      | Inr wbot \<Rightarrow>
          (let toJid = normalizeJid to;
               me = user_id (heap st ! wbot);
               quoted = (case options of None \<Rightarrow> None | Some opts \<Rightarrow> quotedMessageId opts);
               messageContent =
                 (if truthy quoted
                  then TextContent body
                         (Some (or_empty quoted,
                                if (case options of None \<Rightarrow> None
                                    | Some opts \<Rightarrow> quotedMessageFromMe opts) = Some True
                                then me else Some toJid))
                  else TextContent body None);
               sends = [SocketSend wbot toJid messageContent]
           in case resp of
                Inl e \<Rightarrow> (Inl e, sends)
              | Inr sentMsg \<Rightarrow>
                  (case sentMsg of
                     None \<Rightarrow> (Inl ERR_SENDING_WAPP_MSG, sends)
                   | Some m \<Rightarrow>
                       if \<not> truthy (key_id (msg_key m)) then (Inl ERR_SENDING_WAPP_MSG, sends)
                       else (Inr \<lparr> mp_id = or_empty (key_id (msg_key m)), mp_body = body,
                                   mp_fromMe = True, mp_hasMedia = False, mp_type = Chat,
                                   mp_timestamp =
                                     (case messageTimestamp m of
                                        None \<Rightarrow> now | Some t \<Rightarrow> if t = 0 then now else t),
                                   mp_from = or_empty me, mp_to = to,
                                   mp_hasQuotedMsg = None, mp_quotedMsgId = None,
                                   mp_ack = Some 1 \<rparr>, sends))))"

definition buildPayload ::
  "provider_media_input \<Rightarrow> send_media_options option \<Rightarrow> string \<Rightarrow> string \<Rightarrow>
   message_content \<times> message_type" where
  \<comment> \<open>the content is kept by its kind, its buffer, its caption and its mimetype\<close>
  "buildPayload media options toJid mediaBuffer =
     (let cap = (case options of None \<Rightarrow> None | Some opts \<Rightarrow> smo_caption opts) in
      if starts_with (media_mimetype media) ''image/''
      then (ImageContent mediaBuffer cap (media_mimetype media), Image)
      else if starts_with (media_mimetype media) ''video/''
      then (VideoContent mediaBuffer cap (media_mimetype media), Video)
      else if starts_with (media_mimetype media) ''audio/''
      then (let voice = ((case options of None \<Rightarrow> None | Some opts \<Rightarrow> sendAudioAsVoice opts)
                          = Some True)
            in (AudioContent mediaBuffer (media_mimetype media) voice,
                if voice then Ptt else Audio))
      else (DocumentContent mediaBuffer cap (media_mimetype media) (media_filename media),
            Document))"

definition sendMedia ::
  "wstate \<Rightarrow> nat \<Rightarrow> (string \<Rightarrow> error + string) \<Rightarrow> nat \<Rightarrow> string \<Rightarrow> provider_media_input \<Rightarrow>
   send_media_options option \<Rightarrow> error + wa_message option \<Rightarrow>
   (error + message_payload) \<times> effect list" where
  \<comment> \<open>\<open>readFileSync\<close> is the file system's: the bytes of the file, or what it throws\<close>
  "sendMedia st now readFileSync sessionId to media options resp =
     (case getWbot st sessionId of
        Inl e \<Rightarrow> (Inl e, [])
      | Inr wbot \<Rightarrow>
          (let toJid = normalizeJid to in
           case (if truthy (media_path media)
                 then map_sum id Some (readFileSync (or_empty (media_path media)))
                 else Inr (media_data media)) of
             Inl e \<Rightarrow> (Inl e, [])
           | Inr buffer \<Rightarrow>
               (case buffer of
                  None \<Rightarrow> (Inl ERR_NO_MEDIA_DATA, [])
                | Some mediaBuffer \<Rightarrow>
                    (let (content, mtype) = buildPayload media options toJid mediaBuffer;
                         sends = [SocketSend wbot toJid content]
                     in case resp of
                          Inl e \<Rightarrow> (Inl e, sends)
                        | Inr sent \<Rightarrow>
                            (case sent of
                               None \<Rightarrow> (Inl ERR_SENDING_WAPP_MEDIA_MSG, sends)
                             | Some m \<Rightarrow>
                                 if \<not> truthy (key_id (msg_key m))
                                 then (Inl ERR_SENDING_WAPP_MEDIA_MSG, sends)
                                 else (Inr \<lparr> mp_id = or_empty (key_id (msg_key m)),
                                             mp_body =
                                               (let cap = (case options of None \<Rightarrow> None
                                                           | Some opts \<Rightarrow> smo_caption opts)
                                                in if truthy cap then or_empty cap
                                                   else media_filename media),
                                             mp_fromMe = True, mp_hasMedia = True,
                                             mp_type = mtype,
                                             mp_timestamp =
                                               (case messageTimestamp m of
                                                  None \<Rightarrow> now
                                                | Some t \<Rightarrow> if t = 0 then now else t),
                                             mp_from = or_empty (user_id (heap st ! wbot)),
                                             mp_to = to, mp_hasQuotedMsg = None,
                                             mp_quotedMsgId = None, mp_ack = Some 1 \<rparr>,
                                       sends))))))"

text \<open>
  \<open>wbot.onWhatsApp\<close> is the library's query to the network: for a number it settles to a
  list of results, each saying whether the number has an account and under which jid.
\<close>

record on_whatsapp_result =
  ow_exists :: bool
  ow_jid :: string

definition checkNumber ::
  "wstate \<Rightarrow> (string \<Rightarrow> error + on_whatsapp_result list) \<Rightarrow> nat \<Rightarrow> string \<Rightarrow> error + string" where
  "checkNumber st onWhatsApp sessionId number =
     (case getWbot st sessionId of
        Inl e \<Rightarrow> Inl e
      | Inr wbot \<Rightarrow>
          (let cleanNumber = digits_only number in
           case onWhatsApp cleanNumber of
             Inl e \<Rightarrow> Inl e
           | Inr results \<Rightarrow>
               (case results of
                  [] \<Rightarrow> Inl ERR_NUMBER_NOT_ON_WHATSAPP
                | r # _ \<Rightarrow> if \<not> ow_exists r then Inl ERR_NUMBER_NOT_ON_WHATSAPP
                           else Inr (ow_jid r))))"

section \<open>The whatsapp-web.js adapter: sessions, sending and number checks\<close>

text \<open>
  The registry of this adapter is an array of clients; of a client the model keeps its
  optional \<open>id\<close>.
\<close>

record wwebjs_session =
  ws_id :: "nat option"

definition wwebjs_getWbot :: "wwebjs_session list \<Rightarrow> nat \<Rightarrow> error + wwebjs_session" where
  "wwebjs_getWbot wsessions whatsappId =
     (case find (\<lambda>s. ws_id s = Some whatsappId) wsessions of
        None \<Rightarrow> Inl ERR_WAPP_NOT_INITIALIZED
      | Some s \<Rightarrow> Inr s)"

datatype wwebjs_call =
    WSendText string string string "bool option"
  | WSendMedia string provider_media_input "send_media_options option"

definition getSerializedMessageId :: "string \<Rightarrow> bool \<Rightarrow> string \<Rightarrow> string" where
  "getSerializedMessageId chatId fromMe messageId =
     (if fromMe then ''true'' else ''false'') @ ''_'' @ chatId @ ''_'' @ messageId"

definition wwebjs_sendMessage ::
  "wwebjs_session list \<Rightarrow> nat \<Rightarrow> string \<Rightarrow> string \<Rightarrow> send_message_options option \<Rightarrow>
   error + wbot_message \<Rightarrow> (error + message_payload) \<times> wwebjs_call list" where
  "wwebjs_sendMessage wsessions sessionId to body options resp =
     (case wwebjs_getWbot wsessions sessionId of
        Inl e \<Rightarrow> (Inl e, [])
      | Inr wbot \<Rightarrow>
          (let quoted = (case options of None \<Rightarrow> None | Some opts \<Rightarrow> quotedMessageId opts);
               quotedMsgSerializedId =
                 (if truthy quoted
                  then getSerializedMessageId to
                         ((case options of None \<Rightarrow> None
                           | Some opts \<Rightarrow> quotedMessageFromMe opts) = Some True)
                         (or_empty quoted)
                  else []);
               calls = [WSendText to body quotedMsgSerializedId
                          (case options of None \<Rightarrow> None | Some opts \<Rightarrow> linkPreview opts)]
           in case resp of
                Inl e \<Rightarrow> (Inl e, calls)
              | Inr sentMessage \<Rightarrow> (Inr (convertToProviderMessage sentMessage), calls)))"

definition wwebjs_sendMedia ::
  "wwebjs_session list \<Rightarrow> (string \<Rightarrow> error option) \<Rightarrow> nat \<Rightarrow> string \<Rightarrow> provider_media_input \<Rightarrow>
   send_media_options option \<Rightarrow> error + wbot_message \<Rightarrow>
   (error + message_payload) \<times> wwebjs_call list" where
  \<comment> \<open>\<open>fromFilePath\<close> is the library's read of the file: what it throws, if it does. The
      call into the client is kept by the arguments the adapter was given; the flag
      \<open>sendMediaAsDocument\<close> that the adapter adds for some images is not kept.\<close>
  "wwebjs_sendMedia wsessions fromFilePath sessionId to media options resp =
     (case wwebjs_getWbot wsessions sessionId of
        Inl e \<Rightarrow> (Inl e, [])
      | Inr wbot \<Rightarrow>
          (case (if truthy (media_path media) then fromFilePath (or_empty (media_path media))
                 else None) of
             Some e \<Rightarrow> (Inl e, [])
           | None \<Rightarrow>
               (let calls = [WSendMedia to media options]
                in case resp of
                     Inl e \<Rightarrow> (Inl e, calls)
                   | Inr sentMessage \<Rightarrow> (Inr (convertToProviderMessage sentMessage), calls))))"

definition wwebjs_checkNumber ::
  "wwebjs_session list \<Rightarrow> (string \<Rightarrow> error + string option) \<Rightarrow> nat \<Rightarrow> string \<Rightarrow> error + string" where
  \<comment> \<open>\<open>getNumberId\<close> is the library's query: the \<open>user\<close> of the id the network knows the
      number by, or null\<close>
  "wwebjs_checkNumber wsessions getNumberId sessionId number =
     (case wwebjs_getWbot wsessions sessionId of
        Inl e \<Rightarrow> Inl e
      | Inr wbot \<Rightarrow>
          (case getNumberId (number @ ''@c.us'') of
             Inl e \<Rightarrow> Inl e
           | Inr validNumber \<Rightarrow> Inr (or_empty validNumber)))"

section \<open>Contact upsert (services/ContactServices/CreateOrUpdateContactService.ts)\<close>

text \<open>
  The tables \<open>Contacts\<close> and \<open>Tickets\<close>, with the columns the service reads and writes. The
  migrations make \<open>number\<close> and \<open>lid\<close> nullable and unique. A new contact takes the next
  value of the table's sequence. The notifications that the service emits are the list
  \<open>contact_events\<close>.
\<close>

record contact =
  contact_id :: nat
  contact_name :: string
  contact_number :: "string option"
  contact_lid :: "string option"
  contact_profilePicUrl :: "string option"
  contact_isGroup :: bool
  contact_email :: string

record ticket =
  ticket_id :: nat
  ticket_contactId :: nat

datatype contact_action = ContactUpdate | ContactCreate

record crm =
  Contacts :: "contact list"
  Tickets :: "ticket list"
  next_contact_id :: nat
  contact_events :: "(contact_action \<times> contact) list"

record contact_request =
  req_name :: string
  req_number :: string
  req_lid :: "string option"
  req_isGroup :: bool
  req_email :: "string option"
  req_profilePicUrl :: "string option"

definition findByNumber :: "crm \<Rightarrow> string \<Rightarrow> contact option" where
  \<comment> \<open>\<open>Contact.findOne({ where: { number } })\<close>\<close>
  "findByNumber db n = find (\<lambda>c. contact_number c = Some n) (Contacts db)"

definition findByLid :: "crm \<Rightarrow> string \<Rightarrow> contact option" where
  \<comment> \<open>\<open>Contact.findOne({ where: { lid } })\<close>\<close>
  "findByLid db l = find (\<lambda>c. contact_lid c = Some l) (Contacts db)"

definition save_contact :: "contact \<Rightarrow> crm \<Rightarrow> crm" where
  \<comment> \<open>\<open>instance.update(...)\<close>: the row of the instance takes the instance's columns\<close>
  "save_contact c db =
     db\<lparr> Contacts := map (\<lambda>r. if contact_id r = contact_id c then c else r) (Contacts db) \<rparr>"

definition emitContact :: "contact_action \<Rightarrow> contact \<Rightarrow> crm \<Rightarrow> crm" where
  "emitContact action c db = db\<lparr> contact_events := contact_events db @ [(action, c)] \<rparr>"

definition CreateOrUpdateContactService :: "crm \<Rightarrow> contact_request \<Rightarrow> (error + contact) \<times> crm" where
  "CreateOrUpdateContactService db req =
     (let number = (if req_isGroup req then req_number req else digits_only (req_number req));
          lid = req_lid req
      in if number = [] \<and> \<not> truthy lid
         then (Inl (PlainError ''Either number or lid must be provided''), db)
         else
           (let contactByNumber = (if number \<noteq> [] then findByNumber db number else None);
                contactByLid = (if truthy lid then findByLid db (or_empty lid) else None)
            in case (contactByNumber, contactByLid) of
                 (Some byNumber, Some byLid) \<Rightarrow>
                   if contact_id byNumber \<noteq> contact_id byLid
                   then
                     (let db1 = db\<lparr> Tickets :=
                                  map (\<lambda>t. if ticket_contactId t = contact_id byLid
                                            then t\<lparr> ticket_contactId := contact_id byNumber \<rparr>
                                            else t) (Tickets db) \<rparr>;
                          db2 = db1\<lparr> Contacts :=
                                  filter (\<lambda>c. contact_id c \<noteq> contact_id byLid) (Contacts db1) \<rparr>;
                          merged = byNumber\<lparr> contact_lid := contact_lid byLid,
                                             contact_profilePicUrl := req_profilePicUrl req \<rparr>
                      in (Inr merged, emitContact ContactUpdate merged (save_contact merged db2)))
                   else
                     (let updated = byNumber\<lparr> contact_lid :=
                                        (if truthy lid then lid else contact_lid byNumber),
                                      contact_profilePicUrl := req_profilePicUrl req \<rparr>
                      in (Inr updated, emitContact ContactUpdate updated (save_contact updated db)))
               | (Some byNumber, None) \<Rightarrow>
                   (let updated = byNumber\<lparr> contact_lid :=
                                      (if truthy lid then lid else contact_lid byNumber),
                                    contact_profilePicUrl := req_profilePicUrl req \<rparr>
                    in (Inr updated, emitContact ContactUpdate updated (save_contact updated db)))
               | (None, Some byLid) \<Rightarrow>
                   (let updated = byLid\<lparr> contact_number :=
                                      (if number \<noteq> [] then Some number else contact_number byLid),
                                    contact_profilePicUrl := req_profilePicUrl req \<rparr>
                    in (Inr updated, emitContact ContactUpdate updated (save_contact updated db)))
               | (None, None) \<Rightarrow>
                   (let created =
                          \<lparr> contact_id = next_contact_id db, contact_name = req_name req,
                            contact_number = Some number, contact_lid = lid,
                            contact_profilePicUrl = req_profilePicUrl req,
                            contact_isGroup = req_isGroup req,
                            contact_email = or_empty (req_email req) \<rparr>
                    in (Inr created,
                        emitContact ContactCreate created
                          (db\<lparr> Contacts := Contacts db @ [created],
                               next_contact_id := Suc (next_contact_id db) \<rparr>)))))"

definition matches :: "string \<Rightarrow> string \<Rightarrow> contact \<Rightarrow> bool" where
  \<comment> \<open>a stored contact that a payload with this number and this lid identifies\<close>
  "matches n l c = (contact_number c = Some n \<or> contact_lid c = Some l)"

definition crm_ok :: "crm \<Rightarrow> bool" where
  \<comment> \<open>what the primary key, its sequence and the two unique columns guarantee\<close>
  "crm_ok db =
     (distinct (map contact_id (Contacts db))
      \<and> (\<forall>a\<in>set (Contacts db). \<forall>b\<in>set (Contacts db).
            contact_number a \<noteq> None \<and> contact_number a = contact_number b \<longrightarrow>
            contact_id a = contact_id b)
      \<and> (\<forall>a\<in>set (Contacts db). \<forall>b\<in>set (Contacts db).
            contact_lid a \<noteq> None \<and> contact_lid a = contact_lid b \<longrightarrow>
            contact_id a = contact_id b)
      \<and> (\<forall>a\<in>set (Contacts db). contact_id a < next_contact_id db))"

section \<open>Acknowledgments (handlers/handleWhatsappEvents.ts)\<close>

text \<open>
  The table \<open>Messages\<close> with the columns the handler reads and writes, and the
  notifications sent to the room of a ticket. \<open>getIO\<close> is not among the sources; the
  handler is modelled once the socket server is up, which \<open>server.ts\<close> sees to before any
  session starts. A query that the database rejects throws inside the handler's \<open>try\<close>.
\<close>

record message_row =
  message_id :: string
  message_ack :: nat
  message_ticketId :: nat

record message_store =
  Messages :: "message_row list"
  messages_db_rejects :: bool
  app_messages :: "(nat \<times> message_row) list"
  captured :: "error list"

definition handleMessageAck :: "message_store \<Rightarrow> string \<Rightarrow> message_ack \<Rightarrow> (error + unit) \<times> message_store" where
  \<comment> \<open>after the wait of 500 ms\<close>
  "handleMessageAck db messageId ack =
     (if messages_db_rejects db
      then (Inr (), db\<lparr> captured := captured db @ [LibraryError ''database''] \<rparr>)
      else (case find (\<lambda>m. message_id m = messageId) (Messages db) of
              None \<Rightarrow> (Inr (), db)
            | Some messageToUpdate \<Rightarrow>
                (let updated = messageToUpdate\<lparr> message_ack := ack \<rparr>
                 in (Inr (),
                     db\<lparr> Messages := map (\<lambda>m. if message_id m = messageId then updated else m)
                                         (Messages db),
                         app_messages := app_messages db @ [(message_ticketId updated, updated)] \<rparr>))))"

section \<open>Concrete inputs\<close>

text \<open>
  The messages, states and library answers at which the properties below are evaluated.
  \<open>first_content\<close> stands for \<open>getContentType\<close> there: the first content field that is
  present, in the order of the record.
\<close>

definition no_content :: proto_message where
  "no_content =
     \<lparr> conversation = None, extendedTextMessage = None, imageMessage = None,
       videoMessage = None, documentMessage = None, audioMessage = None,
       contactMessage = None, contactsArrayMessage = None, locationMessage = None \<rparr>"

definition first_content :: content_type_fn where
  "first_content m =
     (case m of
        None \<Rightarrow> None
      | Some c \<Rightarrow>
          if conversation c \<noteq> None then Some ''conversation''
          else if extendedTextMessage c \<noteq> None then Some ''extendedTextMessage''
          else if imageMessage c \<noteq> None then Some ''imageMessage''
          else if videoMessage c \<noteq> None then Some ''videoMessage''
          else if documentMessage c \<noteq> None then Some ''documentMessage''
          else if audioMessage c \<noteq> None then Some ''audioMessage''
          else if contactMessage c \<noteq> None then Some ''contactMessage''
          else if contactsArrayMessage c \<noteq> None then Some ''contactsArrayMessage''
          else if locationMessage c \<noteq> None then Some ''locationMessage''
          else None)"

definition ex_status_text :: wa_message where
  \<comment> \<open>a text posted to the status broadcast\<close>
  "ex_status_text =
     \<lparr> msg_key = \<lparr> remoteJid = Some ''status@broadcast'', key_fromMe = Some False,
                   key_id = Some ''A1'', participant = Some ''5511999999999@s.whatsapp.net'' \<rparr>,
       msg_message = Some (no_content\<lparr> conversation := Some ''hi'' \<rparr>),
       messageTimestamp = Some 1700000000, msg_status = None \<rparr>"

definition ex_own_contacts :: wa_message where
  \<comment> \<open>two contact cards sent from the account itself\<close>
  "ex_own_contacts =
     \<lparr> msg_key = \<lparr> remoteJid = Some ''5511999999999@s.whatsapp.net'', key_fromMe = Some True,
                   key_id = Some ''A2'', participant = None \<rparr>,
       msg_message = Some (no_content\<lparr> contactsArrayMessage :=
                        Some [\<lparr> vcard = Some ''BEGIN:VCARD'' \<rparr>, \<lparr> vcard = Some ''BEGIN:VCARD'' \<rparr>] \<rparr>),
       messageTimestamp = Some 1700000000, msg_status = None \<rparr>"

definition ex_own_sticker :: wbot_message where
  \<comment> \<open>a sticker sent from the account itself, with no media flag\<close>
  "ex_own_sticker =
     \<lparr> wm_id = ''M0'', wm_body = [], wm_fromMe = True, wm_hasMedia = False,
       wm_type = ''sticker'', wm_timestamp = 1700000000, wm_from = ''5511888888888@c.us'',
       wm_to = ''5511999999999@c.us'', wm_hasQuotedMsg = False, wm_ack = Some 0,
       wm_location = None \<rparr>"



definition ex_wbot_sent :: wbot_message where
  \<comment> \<open>a message as the client library hands it back from a send: queued, not yet
      acknowledged by the server (its \<open>ack\<close> is \<open>ACK_PENDING\<close>, 0)\<close>
  "ex_wbot_sent =
     \<lparr> wm_id = ''M2'', wm_body = ''hello'', wm_fromMe = True, wm_hasMedia = False,
       wm_type = ''chat'', wm_timestamp = 1700000000, wm_from = ''5511888888888@c.us'',
       wm_to = ''5511999999999@c.us'', wm_hasQuotedMsg = False, wm_ack = Some 0,
       wm_location = None \<rparr>"

definition ex_wa_sent :: wa_message where
  \<comment> \<open>a message as the whaileys socket hands it back from a send\<close>
  "ex_wa_sent =
     \<lparr> msg_key = \<lparr> remoteJid = Some ''5511999999999@s.whatsapp.net'', key_fromMe = Some True,
                   key_id = Some ''3EB0A1'', participant = None \<rparr>,
       msg_message = Some (no_content\<lparr> conversation := Some ''hello'' \<rparr>),
       messageTimestamp = Some 1700000000, msg_status = Some 1 \<rparr>"

definition ex_message_store :: message_store where
  "ex_message_store =
     \<lparr> Messages = [\<lparr> message_id = ''3EB0A1'', message_ack = 1, message_ticketId = 7 \<rparr>],
       messages_db_rejects = False, app_messages = [], captured = [] \<rparr>"

definition ex_key_store :: key_store where
  \<comment> \<open>a connected cache and an empty table\<close>
  "ex_key_store =
     \<lparr> redisClient = Some Map.empty, redis_rejects = False, WppKeys = [], db_rejects = False \<rparr>"

definition ex_crm :: crm where
  \<comment> \<open>the same person stored twice: once under the number, once under the linked-device
      id, each with a ticket\<close>
  "ex_crm =
     \<lparr> Contacts =
         [\<lparr> contact_id = 1, contact_name = ''Ana'', contact_number = Some ''5511999999999'',
            contact_lid = None, contact_profilePicUrl = None, contact_isGroup = False,
            contact_email = [] \<rparr>,
          \<lparr> contact_id = 2, contact_name = ''Ana'', contact_number = None,
            contact_lid = Some ''123456@lid'', contact_profilePicUrl = None,
            contact_isGroup = False, contact_email = [] \<rparr>],
       Tickets = [\<lparr> ticket_id = 10, ticket_contactId = 1 \<rparr>,
                  \<lparr> ticket_id = 11, ticket_contactId = 2 \<rparr>],
       next_contact_id = 3, contact_events = [] \<rparr>"

definition ex_contact_request :: contact_request where
  "ex_contact_request =
     \<lparr> req_name = ''Ana'', req_number = ''5511999999999'', req_lid = Some ''123456@lid'',
       req_isGroup = False, req_email = None, req_profilePicUrl = None \<rparr>"

chapter \<open>Properties\<close>

section \<open>The inbound message filter\<close>

lemma first_content_status_text: "first_content (msg_message ex_status_text) = Some ''conversation''"
  by (simp add: ex_status_text_def no_content_def first_content_def)

lemma first_content_own_contacts:
  "first_content (msg_message ex_own_contacts) = Some ''contactsArrayMessage''"
  by (simp add: ex_own_contacts_def no_content_def first_content_def)

lemma own_contacts_body_no_mark: "\<not> lrm_test (getMessageBody first_content ex_own_contacts)"
  by (simp add: getMessageBody_def first_content_own_contacts sub_message_def lrm_test_def LRM_def
      or_empty_def)
     (simp add: ex_own_contacts_def no_content_def)

lemma wwebjs_filter_iff:
  "wwebjs_shouldHandleMessage w \<longleftrightarrow>
     wm_from w \<noteq> ''status@broadcast''
     \<and> wm_type w \<in> set [''chat'', ''audio'', ''ptt'', ''video'', ''image'', ''document'',
                          ''vcard'', ''sticker'', ''location'']
     \<and> \<not> lrm_test (wm_body w)
     \<and> (wm_fromMe w \<longrightarrow>
          wm_hasMedia w \<or> wwebjs_mapMessageType (wm_type w) \<in> {Location, Chat, Vcard})"
  unfolding wwebjs_shouldHandleMessage_def wwebjs_mapMessageType_def by auto

lemma whaileys_filter_iff:
  "shouldHandleMessage gct m \<longleftrightarrow>
     or_empty (gct (msg_message m)) \<in> set validTypes
     \<and> \<not> lrm_test (getMessageBody gct m)
     \<and> (key_fromMe (msg_key m) = Some True \<longrightarrow>
          hasMedia gct m \<or> or_empty (gct (msg_message m)) \<in> set allowedFromMeTypes)"
  unfolding shouldHandleMessage_def by (auto simp: Let_def)

lemma whaileys_own_types:
  "shouldHandleMessage gct m \<Longrightarrow> key_fromMe (msg_key m) = Some True \<Longrightarrow>
     hasMedia gct m \<or> mapMessageType gct m \<in> {Location, Chat, Vcard}"
  unfolding shouldHandleMessage_def mapMessageType_def allowedFromMeTypes_def validTypes_def
  by (auto simp: Let_def or_empty_def split: if_splits option.splits)

lemma ends_with_append: "ends_with (u @ s) s"
  by (simp add: ends_with_def)

lemma shouldIgnoreJid_iff:
  "shouldIgnoreJid (Some jid) \<longleftrightarrow> ends_with jid ''@broadcast'' \<or> ends_with jid ''newsletter''"
  by (auto simp: shouldIgnoreJid_def isJidBroadcast_def ends_with_def)

text \<open>
  C7, as stated, fails on the whaileys adapter. Its \<open>shouldHandleMessage\<close> never looks at
  the address of a message, so it accepts a text posted to the status broadcast; and it
  rejects contact cards sent from the account itself when they come as a
  \<open>contactsArrayMessage\<close>, although their canonical type is the contact card, they carry no
  mark U+200E and they are no broadcast. (The address is looked at by another predicate,
  \<open>shouldIgnoreJid\<close>, which is true of a newsletter as well.)
\<close>

theorem shouldHandleMessage_counterexample:
  "shouldHandleMessage first_content ex_status_text
   \<and> remoteJid (msg_key ex_status_text) = Some ''status@broadcast''
   \<and> mapMessageType first_content ex_own_contacts = Vcard
   \<and> \<not> lrm_test (getMessageBody first_content ex_own_contacts)
   \<and> \<not> shouldHandleMessage first_content ex_own_contacts
   \<and> shouldIgnoreJid (Some ''120363000000000000@newsletter'')"
proof -
  have "shouldHandleMessage first_content ex_status_text"
    by (simp add: shouldHandleMessage_def getMessageBody_def first_content_status_text
        validTypes_def or_empty_def lrm_test_def LRM_def sub_message_def)
       (simp add: ex_status_text_def no_content_def)
  moreover have "remoteJid (msg_key ex_status_text) = Some ''status@broadcast''"
    by (simp add: ex_status_text_def)
  moreover have "mapMessageType first_content ex_own_contacts = Vcard"
    by (simp add: mapMessageType_def first_content_own_contacts or_empty_def)
  moreover have "\<not> shouldHandleMessage first_content ex_own_contacts"
    using own_contacts_body_no_mark
    by (simp add: shouldHandleMessage_def first_content_own_contacts validTypes_def
        allowedFromMeTypes_def hasMedia_def or_empty_def)
       (simp add: ex_own_contacts_def)
  moreover have "shouldIgnoreJid (Some ''120363000000000000@newsletter'')"
    by (simp add: shouldIgnoreJid_def ends_with_def)
  ultimately show ?thesis
    using own_contacts_body_no_mark by simp
qed

text \<open>
  C7, amended. In the whatsapp-web.js adapter \<open>shouldHandleMessage\<close> accepts a message
  exactly when it does not come from the status broadcast, its type is one of the nine
  supported ones, its body does not begin with U+200E, and, if the account sent it, it
  carries media or is a location, a text or a contact card. In the whaileys adapter
  \<open>shouldHandleMessage\<close> accepts a message exactly when its content type is one of the ten
  valid ones, its body does not begin with U+200E, and, if the account sent it, it carries
  media or is a \<open>locationMessage\<close>, a \<open>conversation\<close>, an \<open>extendedTextMessage\<close> or a
  \<open>contactMessage\<close>; what it accepts from the account is therefore media, a location, a
  text or a contact card. It does not look at the address: that is done by the predicate
  \<open>shouldIgnoreJid\<close>, which is true of the status broadcast, of every address that ends in
  \<open>@broadcast\<close> and of every address that ends in \<open>newsletter\<close>, and of no other address.
\<close>

theorem shouldHandleMessage_accepts:
  "(wwebjs_shouldHandleMessage w \<longleftrightarrow>
      wm_from w \<noteq> ''status@broadcast''
      \<and> wm_type w \<in> set [''chat'', ''audio'', ''ptt'', ''video'', ''image'', ''document'',
                           ''vcard'', ''sticker'', ''location'']
      \<and> \<not> lrm_test (wm_body w)
      \<and> (wm_fromMe w \<longrightarrow>
           wm_hasMedia w \<or> wwebjs_mapMessageType (wm_type w) \<in> {Location, Chat, Vcard}))
   \<and> (shouldHandleMessage gct m \<longleftrightarrow>
        or_empty (gct (msg_message m)) \<in> set validTypes
        \<and> \<not> lrm_test (getMessageBody gct m)
        \<and> (key_fromMe (msg_key m) = Some True \<longrightarrow>
             hasMedia gct m \<or> or_empty (gct (msg_message m)) \<in> set allowedFromMeTypes))
   \<and> (shouldHandleMessage gct m \<and> key_fromMe (msg_key m) = Some True \<longrightarrow>
        hasMedia gct m \<or> mapMessageType gct m \<in> {Location, Chat, Vcard})
   \<and> shouldIgnoreJid (Some ''status@broadcast'')
   \<and> shouldIgnoreJid (Some (u @ ''@broadcast''))
   \<and> shouldIgnoreJid (Some (u @ ''newsletter''))
   \<and> (shouldIgnoreJid (Some jid) \<longleftrightarrow>
        ends_with jid ''@broadcast'' \<or> ends_with jid ''newsletter'')
   \<and> \<not> shouldIgnoreJid None"
proof -
  have "shouldIgnoreJid (Some ''status@broadcast'')"
    by (simp add: shouldIgnoreJid_def)
  moreover have "shouldIgnoreJid (Some (u @ ''@broadcast''))"
    by (simp add: shouldIgnoreJid_iff ends_with_append)
  moreover have "shouldIgnoreJid (Some (u @ ''newsletter''))"
    by (simp add: shouldIgnoreJid_iff ends_with_append)
  moreover have "\<not> shouldIgnoreJid None"
    by (simp add: shouldIgnoreJid_def)
  ultimately show ?thesis
    using wwebjs_filter_iff [of w] whaileys_filter_iff [of gct m] whaileys_own_types [of gct m]
      shouldIgnoreJid_iff [of jid]
    by blast
qed

theorem shouldHandleMessage_accepts_witness:
  "\<not> wwebjs_shouldHandleMessage ex_own_sticker
   \<and> wwebjs_shouldHandleMessage (ex_own_sticker\<lparr> wm_type := ''chat'', wm_body := ''hi'' \<rparr>)
   \<and> \<not> wwebjs_shouldHandleMessage (ex_own_sticker\<lparr> wm_type := ''chat'', wm_body := LRM @ ''hi'' \<rparr>)
   \<and> \<not> shouldHandleMessage first_content ex_own_contacts
   \<and> shouldIgnoreJid (Some ''1234567890@broadcast'')
   \<and> shouldIgnoreJid (Some ''120363000000000000@newsletter'')
   \<and> \<not> shouldIgnoreJid (Some ''5511999999999@s.whatsapp.net'')"
proof -
  have types: "first_content (msg_message ex_own_contacts) = Some ''contactsArrayMessage''"
    by (rule first_content_own_contacts)
  have own: "key_fromMe (msg_key ex_own_contacts) = Some True"
    by (simp add: ex_own_contacts_def)
  have a: "\<not> wwebjs_shouldHandleMessage ex_own_sticker"
    using shouldHandleMessage_accepts [of ex_own_sticker first_content ex_own_contacts]
    by (simp add: ex_own_sticker_def wwebjs_mapMessageType_def)
  have b: "wwebjs_shouldHandleMessage (ex_own_sticker\<lparr> wm_type := ''chat'', wm_body := ''hi'' \<rparr>)"
    using shouldHandleMessage_accepts
      [of "ex_own_sticker\<lparr> wm_type := ''chat'', wm_body := ''hi'' \<rparr>" first_content ex_own_contacts]
    by (simp add: ex_own_sticker_def wwebjs_mapMessageType_def lrm_test_def LRM_def)
  have c: "\<not> wwebjs_shouldHandleMessage (ex_own_sticker\<lparr> wm_type := ''chat'', wm_body := LRM @ ''hi'' \<rparr>)"
    using shouldHandleMessage_accepts
      [of "ex_own_sticker\<lparr> wm_type := ''chat'', wm_body := LRM @ ''hi'' \<rparr>" first_content
        ex_own_contacts]
    by (simp add: ex_own_sticker_def lrm_test_def LRM_def)
  have d: "\<not> shouldHandleMessage first_content ex_own_contacts"
    using shouldHandleMessage_accepts [of ex_own_sticker first_content ex_own_contacts] types own
    by (simp add: hasMedia_def allowedFromMeTypes_def or_empty_def)
  have e: "shouldIgnoreJid (Some ''1234567890@broadcast'')"
    using shouldHandleMessage_accepts [of ex_own_sticker first_content ex_own_contacts
        "''1234567890''" "''5511999999999@s.whatsapp.net''"]
    by simp
  have f: "shouldIgnoreJid (Some ''120363000000000000@newsletter'')"
    using shouldHandleMessage_accepts [of ex_own_sticker first_content ex_own_contacts
        "''120363000000000000@''" "''5511999999999@s.whatsapp.net''"]
    by simp
  have g: "\<not> shouldIgnoreJid (Some ''5511999999999@s.whatsapp.net'')"
    using shouldHandleMessage_accepts [of ex_own_sticker first_content ex_own_contacts
        "''1234567890''" "''5511999999999@s.whatsapp.net''"]
    by (simp add: ends_with_def)
  from a b c d e f g show ?thesis by simp
qed

section \<open>The body of a location message\<close>











section \<open>Sending\<close>

lemma sendMessage_not_initialized:
  "sessions st i = None \<Longrightarrow>
     sendMessage st now i to body opts resp = (Inl ERR_WAPP_NOT_INITIALIZED, [])"
  by (simp add: sendMessage_def getWbot_def)

lemma sendMedia_not_initialized:
  "sessions st i = None \<Longrightarrow>
     sendMedia st now rf i to media mopts resp = (Inl ERR_WAPP_NOT_INITIALIZED, [])"
  by (simp add: sendMedia_def getWbot_def)

lemma wwebjs_send_not_initialized:
  "find (\<lambda>s. ws_id s = Some i) ws = None \<Longrightarrow>
     wwebjs_sendMessage ws i to body opts wresp = (Inl ERR_WAPP_NOT_INITIALIZED, [])
     \<and> wwebjs_sendMedia ws ff i to media mopts wresp = (Inl ERR_WAPP_NOT_INITIALIZED, [])"
  by (simp add: wwebjs_sendMessage_def wwebjs_sendMedia_def wwebjs_getWbot_def)

lemma sendMessage_success:
  "sendMessage st now i to body opts resp = (Inr p, sends) \<Longrightarrow> mp_fromMe p \<and> mp_ack p = Some 1"
  by (auto simp: sendMessage_def Let_def split: sum.splits option.splits if_splits)

lemma sendMedia_success:
  "sendMedia st now rf i to media mopts resp = (Inr p, sends) \<Longrightarrow>
     mp_fromMe p \<and> mp_ack p = Some 1"
  by (auto simp: sendMedia_def Let_def split: sum.splits option.splits if_splits prod.splits)

lemma wwebjs_sendMessage_success:
  "wwebjs_sendMessage ws i to body opts wresp = (Inr p, calls) \<Longrightarrow>
     \<exists>m. wresp = Inr m \<and> mp_fromMe p = wm_fromMe m
         \<and> mp_ack p = Some (wwebjs_mapMessageAck (wm_ack m))"
  by (auto simp: wwebjs_sendMessage_def convertToProviderMessage_def Let_def split: sum.splits)

lemma wwebjs_sendMedia_success:
  "wwebjs_sendMedia ws ff i to media mopts wresp = (Inr p, calls) \<Longrightarrow>
     \<exists>m. wresp = Inr m \<and> mp_fromMe p = wm_fromMe m
         \<and> mp_ack p = Some (wwebjs_mapMessageAck (wm_ack m))"
  by (auto simp: wwebjs_sendMedia_def convertToProviderMessage_def Let_def
      split: sum.splits option.splits)

lemma wwebjs_mapMessageAck_le: "wwebjs_mapMessageAck a \<le> 4"
  by (simp add: wwebjs_mapMessageAck_def split: option.splits)

text \<open>
  C5, as stated, fails on the whatsapp-web.js adapter: what \<open>sendMessage\<close> returns is the
  conversion of the message the client library hands back, whose acknowledgment the
  library reports as 0 (pending) for a message it has only queued.
\<close>

theorem send_ack_counterexample:
  "map_sum id mp_ack
     (fst (wwebjs_sendMessage [\<lparr> ws_id = Some 1 \<rparr>] 1 ''5511999999999@c.us'' ''hello'' None
            (Inr ex_wbot_sent)))
   = Inr (Some 0)"
  by (simp add: wwebjs_sendMessage_def wwebjs_getWbot_def convertToProviderMessage_def
      wwebjs_mapMessageAck_def ex_wbot_sent_def truthy_def)

text \<open>
  C5, amended. In both adapters \<open>sendMessage\<close> and \<open>sendMedia\<close> throw
  \<open>ERR_WAPP_NOT_INITIALIZED\<close> for an id with no session in the registry, before any call
  into the network. In the whaileys adapter a call that succeeds returns a payload with
  \<open>fromMe = true\<close> and the acknowledgment 1. In the whatsapp-web.js adapter a call that
  succeeds returns the \<open>fromMe\<close> of the message the library hands back and the
  acknowledgment the library reports for it, between 0 and 4.
\<close>

theorem send_results:
  "(sessions st i = None \<longrightarrow>
      sendMessage st now i to body opts resp = (Inl ERR_WAPP_NOT_INITIALIZED, [])
      \<and> sendMedia st now rf i to media mopts resp = (Inl ERR_WAPP_NOT_INITIALIZED, []))
   \<and> (find (\<lambda>s. ws_id s = Some i) ws = None \<longrightarrow>
        wwebjs_sendMessage ws i to body opts wresp = (Inl ERR_WAPP_NOT_INITIALIZED, [])
        \<and> wwebjs_sendMedia ws ff i to media mopts wresp = (Inl ERR_WAPP_NOT_INITIALIZED, []))
   \<and> (sendMessage st now i to body opts resp = (Inr p1, sends1) \<longrightarrow>
        mp_fromMe p1 \<and> mp_ack p1 = Some 1)
   \<and> (sendMedia st now rf i to media mopts resp = (Inr p2, sends2) \<longrightarrow>
        mp_fromMe p2 \<and> mp_ack p2 = Some 1)
   \<and> (wwebjs_sendMessage ws i to body opts wresp = (Inr p3, calls3) \<longrightarrow>
        (\<exists>m. wresp = Inr m \<and> mp_fromMe p3 = wm_fromMe m
             \<and> mp_ack p3 = Some (wwebjs_mapMessageAck (wm_ack m))
             \<and> wwebjs_mapMessageAck (wm_ack m) \<le> 4))
   \<and> (wwebjs_sendMedia ws ff i to media mopts wresp = (Inr p4, calls4) \<longrightarrow>
        (\<exists>m. wresp = Inr m \<and> mp_fromMe p4 = wm_fromMe m
             \<and> mp_ack p4 = Some (wwebjs_mapMessageAck (wm_ack m))
             \<and> wwebjs_mapMessageAck (wm_ack m) \<le> 4))"
  using sendMessage_not_initialized [of st i now to body opts resp]
    sendMedia_not_initialized [of st i now rf to media mopts resp]
    wwebjs_send_not_initialized [of i ws to body opts wresp ff media mopts]
    sendMessage_success [of st now i to body opts resp p1 sends1]
    sendMedia_success [of st now rf i to media mopts resp p2 sends2]
    wwebjs_sendMessage_success [of ws i to body opts wresp p3 calls3]
    wwebjs_sendMedia_success [of ws ff i to media mopts wresp p4 calls4]
    wwebjs_mapMessageAck_le
  by blast

theorem send_results_witness:
  "sendMessage initial_wstate 0 1 ''5511999999999'' ''hello'' None (Inr (Some ex_wa_sent))
     = (Inl ERR_WAPP_NOT_INITIALIZED, [])
   \<and> wwebjs_sendMessage [] 1 ''5511999999999@c.us'' ''hello'' None (Inr ex_wbot_sent)
     = (Inl ERR_WAPP_NOT_INITIALIZED, [])
   \<and> map_sum id (\<lambda>p. (mp_fromMe p, mp_ack p))
       (fst (sendMessage (init 1 (Some ''5511888888888:1@s.whatsapp.net'') initial_wstate) 0 1
              ''5511999999999'' ''hello'' None (Inr (Some ex_wa_sent))))
     = Inr (True, Some 1)"
proof -
  define st1 where "st1 = init 1 (Some ''5511888888888:1@s.whatsapp.net'') initial_wstate"
  obtain r sends where r: "sendMessage st1 0 1 ''5511999999999'' ''hello'' None
      (Inr (Some ex_wa_sent)) = (r, sends)"
    by (cases "sendMessage st1 0 1 ''5511999999999'' ''hello'' None (Inr (Some ex_wa_sent))")
  have live: "sessions st1 1 = Some 0"
    by (simp add: st1_def init_def init_socket_def init_store_def assertUnique_def
        initial_wstate_def on_socket_def Let_def)
  have "\<exists>p. r = Inr p"
    using r live
    by (auto simp: sendMessage_def getWbot_def Let_def ex_wa_sent_def truthy_def)
  then obtain p where p: "r = Inr p" by blast
  have a: "sendMessage initial_wstate 0 1 ''5511999999999'' ''hello'' None
      (Inr (Some ex_wa_sent)) = (Inl ERR_WAPP_NOT_INITIALIZED, [])"
    using send_results [of initial_wstate 1 0 "''5511999999999''" "''hello''" None
        "Inr (Some ex_wa_sent)"]
    by (simp add: initial_wstate_def)
  have b: "wwebjs_sendMessage [] 1 ''5511999999999@c.us'' ''hello'' None (Inr ex_wbot_sent)
      = (Inl ERR_WAPP_NOT_INITIALIZED, [])"
    using send_results [of _ 1 _ "''5511999999999@c.us''" "''hello''" None _ _ _ _ "[]"
        "Inr ex_wbot_sent"]
    by simp
  have c: "mp_fromMe p \<and> mp_ack p = Some 1"
    using send_results [of st1 1 0 "''5511999999999''" "''hello''" None
        "Inr (Some ex_wa_sent)" _ _ _ _ _ _ p sends] r p
    by simp
  show ?thesis
    using a b c r p by (simp add: st1_def)
qed

section \<open>Number checks\<close>

lemma checkNumber_cases:
  "sessions st i = Some a \<Longrightarrow>
     checkNumber st onWhatsApp i number =
       (case onWhatsApp (digits_only number) of
          Inl e \<Rightarrow> Inl e
        | Inr [] \<Rightarrow> Inl ERR_NUMBER_NOT_ON_WHATSAPP
        | Inr (r # rs) \<Rightarrow> if ow_exists r then Inr (ow_jid r) else Inl ERR_NUMBER_NOT_ON_WHATSAPP)"
  by (simp add: checkNumber_def getWbot_def Let_def split: sum.splits list.splits)

lemma wwebjs_checkNumber_cases:
  "find (\<lambda>s. ws_id s = Some i) ws = Some s \<Longrightarrow>
     wwebjs_checkNumber ws getNumberId i number =
       (case getNumberId (number @ ''@c.us'') of
          Inl e \<Rightarrow> Inl e
        | Inr None \<Rightarrow> Inr []
        | Inr (Some u) \<Rightarrow> Inr u)"
  by (simp add: wwebjs_checkNumber_def wwebjs_getWbot_def or_empty_def
      split: sum.splits option.splits)

text \<open>
  C6, as stated, fails on the whatsapp-web.js adapter: for a number the network does not
  know, its \<open>checkNumber\<close> returns the empty string and throws nothing.
\<close>

theorem checkNumber_counterexample:
  "wwebjs_checkNumber [\<lparr> ws_id = Some 1 \<rparr>] (\<lambda>n. Inr None) 1 ''5511999999999'' = Inr []"
  by (simp add: wwebjs_checkNumber_def wwebjs_getWbot_def or_empty_def)

text \<open>
  C6, amended. With a live session, the whaileys \<open>checkNumber\<close> asks the network about the
  digits of the number: it throws \<open>ERR_NUMBER_NOT_ON_WHATSAPP\<close> when the network has no
  result or a result that does not exist, returns the jid of the first result when it
  exists, and passes on an error of the query as it is, which is no
  \<open>ERR_NUMBER_NOT_ON_WHATSAPP\<close>. With a live session, the whatsapp-web.js \<open>checkNumber\<close>
  returns the empty string for a number the network does not know and the user part of
  the network's id for one it knows. Without a session both throw
  \<open>ERR_WAPP_NOT_INITIALIZED\<close>.
\<close>

theorem checkNumber_results:
  "(sessions st i = Some a \<longrightarrow>
      (onWhatsApp (digits_only number) = Inr [] \<longrightarrow>
         checkNumber st onWhatsApp i number = Inl ERR_NUMBER_NOT_ON_WHATSAPP)
      \<and> (onWhatsApp (digits_only number) = Inr (r # rs) \<longrightarrow>
           checkNumber st onWhatsApp i number =
             (if ow_exists r then Inr (ow_jid r) else Inl ERR_NUMBER_NOT_ON_WHATSAPP))
      \<and> (onWhatsApp (digits_only number) = Inl (LibraryError e) \<longrightarrow>
           checkNumber st onWhatsApp i number = Inl (LibraryError e)
           \<and> LibraryError e \<noteq> ERR_NUMBER_NOT_ON_WHATSAPP))
   \<and> (sessions st i = None \<longrightarrow>
        checkNumber st onWhatsApp i number = Inl ERR_WAPP_NOT_INITIALIZED)
   \<and> (find (\<lambda>s. ws_id s = Some i) ws = Some s \<longrightarrow>
        (getNumberId (number @ ''@c.us'') = Inr None \<longrightarrow>
           wwebjs_checkNumber ws getNumberId i number = Inr [])
        \<and> (getNumberId (number @ ''@c.us'') = Inr (Some u) \<longrightarrow>
             wwebjs_checkNumber ws getNumberId i number = Inr u)
        \<and> (getNumberId (number @ ''@c.us'') = Inl (LibraryError e) \<longrightarrow>
             wwebjs_checkNumber ws getNumberId i number = Inl (LibraryError e)))
   \<and> (find (\<lambda>s. ws_id s = Some i) ws = None \<longrightarrow>
        wwebjs_checkNumber ws getNumberId i number = Inl ERR_WAPP_NOT_INITIALIZED)"
proof -
  have 1: "sessions st i = None \<Longrightarrow>
      checkNumber st onWhatsApp i number = Inl ERR_WAPP_NOT_INITIALIZED"
    by (simp add: checkNumber_def getWbot_def)
  have 2: "find (\<lambda>s. ws_id s = Some i) ws = None \<Longrightarrow>
      wwebjs_checkNumber ws getNumberId i number = Inl ERR_WAPP_NOT_INITIALIZED"
    by (simp add: wwebjs_checkNumber_def wwebjs_getWbot_def)
  show ?thesis
    using 1 2 checkNumber_cases [of st i a onWhatsApp number]
      wwebjs_checkNumber_cases [of i ws s getNumberId number]
    by (auto split: sum.splits list.splits option.splits)
qed

theorem checkNumber_results_witness:
  "checkNumber (init 1 None initial_wstate) (\<lambda>n. Inr []) 1 ''+55 (11) 99999-9999''
     = Inl ERR_NUMBER_NOT_ON_WHATSAPP
   \<and> checkNumber (init 1 None initial_wstate)
       (\<lambda>n. Inr [\<lparr> ow_exists = True, ow_jid = n @ ''@s.whatsapp.net'' \<rparr>]) 1
       ''+55 (11) 99999-9999''
     = Inr ''5511999999999@s.whatsapp.net''
   \<and> wwebjs_checkNumber [\<lparr> ws_id = Some 1 \<rparr>] (\<lambda>n. Inr (Some ''5511999999999'')) 1
       ''5511999999999''
     = Inr ''5511999999999''"
proof -
  define st1 where "st1 = init 1 None initial_wstate"
  have live: "sessions st1 1 = Some 0"
    by (simp add: st1_def init_def init_socket_def init_store_def assertUnique_def
        initial_wstate_def on_socket_def Let_def)
  have digits: "digits_only ''+55 (11) 99999-9999'' = ''5511999999999''"
    by (simp add: digits_only_def is_digit_def)
  have found: "find (\<lambda>s. ws_id s = Some (1::nat)) [\<lparr> ws_id = Some 1 \<rparr>] = Some \<lparr> ws_id = Some 1 \<rparr>"
    by simp
  have a: "checkNumber st1 (\<lambda>n. Inr []) 1 ''+55 (11) 99999-9999''
      = Inl ERR_NUMBER_NOT_ON_WHATSAPP"
    using checkNumber_results [of st1 1 0 "\<lambda>n. Inr []" "''+55 (11) 99999-9999''"] live
    by simp
  have b: "checkNumber st1 (\<lambda>n. Inr [\<lparr> ow_exists = True, ow_jid = n @ ''@s.whatsapp.net'' \<rparr>]) 1
      ''+55 (11) 99999-9999'' = Inr ''5511999999999@s.whatsapp.net''"
    using checkNumber_results [of st1 1 0
        "\<lambda>n. Inr [\<lparr> ow_exists = True, ow_jid = n @ ''@s.whatsapp.net'' \<rparr>]"
        "''+55 (11) 99999-9999''"
        "\<lparr> ow_exists = True, ow_jid = ''5511999999999@s.whatsapp.net'' \<rparr>" "[]"] live digits
    by simp
  have c: "wwebjs_checkNumber [\<lparr> ws_id = Some 1 \<rparr>] (\<lambda>n. Inr (Some ''5511999999999'')) 1
      ''5511999999999'' = Inr ''5511999999999''"
    using checkNumber_results [of _ 1 _ _ "''5511999999999''" _ _ _ "[\<lparr> ws_id = Some 1 \<rparr>]"
        "\<lparr> ws_id = Some 1 \<rparr>" "\<lambda>n. Inr (Some ''5511999999999'')" "''5511999999999''"] found
    by simp
  from a b c show ?thesis by (simp add: st1_def)
qed

section \<open>Acknowledgments for unknown messages\<close>

text \<open>
  C10. For a message id that no stored message has, \<open>handleMessageAck\<close> returns without an
  error, changes no message and sends no notification; when the lookup itself succeeds
  it leaves the whole store as it was.
\<close>

theorem handleMessageAck_unknown:
  "messageId \<notin> message_id ` set (Messages db) \<Longrightarrow>
     fst (handleMessageAck db messageId ack) = Inr ()
     \<and> Messages (snd (handleMessageAck db messageId ack)) = Messages db
     \<and> app_messages (snd (handleMessageAck db messageId ack)) = app_messages db
     \<and> (\<not> messages_db_rejects db \<longrightarrow> handleMessageAck db messageId ack = (Inr (), db))"
proof -
  assume "messageId \<notin> message_id ` set (Messages db)"
  then have "find (\<lambda>m. message_id m = messageId) (Messages db) = None"
    by (auto simp: find_None_iff)
  then show ?thesis
    by (simp add: handleMessageAck_def)
qed

theorem handleMessageAck_unknown_witness:
  "handleMessageAck ex_message_store ''UNKNOWN'' 3 = (Inr (), ex_message_store)
   \<and> Messages (snd (handleMessageAck ex_message_store ''3EB0A1'' 3))
       = [\<lparr> message_id = ''3EB0A1'', message_ack = 3, message_ticketId = 7 \<rparr>]"
proof -
  have "''UNKNOWN'' \<notin> message_id ` set (Messages ex_message_store)"
    by (simp add: ex_message_store_def)
  from handleMessageAck_unknown [OF this, of 3]
  have "handleMessageAck ex_message_store ''UNKNOWN'' 3 = (Inr (), ex_message_store)"
    by (simp add: ex_message_store_def)
  moreover have "Messages (snd (handleMessageAck ex_message_store ''3EB0A1'' 3))
       = [\<lparr> message_id = ''3EB0A1'', message_ack = 3, message_ticketId = 7 \<rparr>]"
    by (simp add: handleMessageAck_def ex_message_store_def Let_def)
  ultimately show ?thesis by simp
qed

section \<open>The key store\<close>

lemma find_append_cases:
  "find P (xs @ ys) = (case find P xs of None \<Rightarrow> find P ys | Some x \<Rightarrow> Some x)"
  by (induction xs) auto

lemma find_in_set: "find P xs = Some x \<Longrightarrow> x \<in> set xs \<and> P x"
  by (induction xs) (auto split: if_splits)

lemma upsert_alt:
  "upsert \<lparr> connectionId = c, key_type = t, keyId = k, key_value = v \<rparr> rows =
     (if list_ex (same_key c t k) rows
      then map (\<lambda>r. if same_key c t k r then r\<lparr> key_value := v \<rparr> else r) rows
      else rows @ [\<lparr> connectionId = c, key_type = t, keyId = k, key_value = v \<rparr>])"
  by (simp add: upsert_def cong: if_cong)

lemma find_upsert_same:
  "\<exists>r. find (same_key c t k)
          (upsert \<lparr> connectionId = c, key_type = t, keyId = k, key_value = v \<rparr> rows) = Some r
       \<and> key_value r = v"
proof (cases "list_ex (same_key c t k) rows")
  case False
  then have "find (same_key c t k) rows = None"
    by (auto simp: find_None_iff list_ex_iff)
  with False show ?thesis
    by (simp add: upsert_alt find_append_cases same_key_def)
next
  case True
  have "list_ex (same_key c t k) xs \<Longrightarrow>
      \<exists>r. find (same_key c t k)
             (map (\<lambda>r. if same_key c t k r then r\<lparr> key_value := v \<rparr> else r) xs) = Some r
          \<and> key_value r = v" for xs
    by (induction xs) (auto simp: same_key_def)
  with True show ?thesis
    by (simp add: upsert_alt)
qed

lemma find_upsert_other:
  assumes "\<not> (c' = c \<and> t' = t \<and> k' = k)"
  shows "find (same_key c' t' k')
           (upsert \<lparr> connectionId = c, key_type = t, keyId = k, key_value = v \<rparr> rows)
         = find (same_key c' t' k') rows"
proof -
  have m: "find (same_key c' t' k')
             (map (\<lambda>r. if same_key c t k r then r\<lparr> key_value := v \<rparr> else r) xs)
           = find (same_key c' t' k') xs" for xs
    using assms by (induction xs) (auto simp: same_key_def)
  have a: "find (same_key c' t' k')
             (xs @ [\<lparr> connectionId = c, key_type = t, keyId = k, key_value = v \<rparr>])
           = find (same_key c' t' k') xs" for xs
    using assms by (induction xs) (auto simp: same_key_def)
  show ?thesis
    by (simp add: upsert_alt m a)
qed

lemma upsert_parses:
  "list_all (\<lambda>r. parse (key_value r) \<noteq> None) rows \<Longrightarrow> parse v \<noteq> None \<Longrightarrow>
     list_all (\<lambda>r. parse (key_value r) \<noteq> None)
       (upsert \<lparr> connectionId = c, key_type = t, keyId = k, key_value = v \<rparr> rows)"
  by (auto simp: upsert_alt list_all_iff)

lemma get_db_keys_absent:
  "i \<notin> set ids \<or> find (same_key c t i) rows = None \<Longrightarrow>
     get_db_keys parse rows c t ids acc i = acc i"
  by (induction ids arbitrary: acc) (auto split: option.splits)

lemma get_db_keys_dom: "dom (get_db_keys parse rows c t ids Map.empty) \<subseteq> set ids"
proof
  fix x
  assume "x \<in> dom (get_db_keys parse rows c t ids Map.empty)"
  then have "get_db_keys parse rows c t ids Map.empty x \<noteq> None"
    by (simp add: dom_def)
  then show "x \<in> set ids"
    using get_db_keys_absent [of x ids c t rows parse Map.empty] by (cases "x \<in> set ids") simp_all
qed

lemma get_db_keys_present:
  assumes "list_all (\<lambda>r. parse (key_value r) \<noteq> None) rows"
      and "find (same_key c t i) rows = Some r" and "i \<in> set ids"
  shows "get_db_keys parse rows c t ids acc i = parse (key_value r)"
  using assms(3)
proof (induction ids arbitrary: acc)
  case Nil
  then show ?case by simp
next
  case (Cons j ids)
  have ok: "parse (key_value r') \<noteq> None" if "find (same_key c t j) rows = Some r'" for r'
    using find_in_set [OF that] assms(1) by (simp add: list_all_iff)
  show ?case
  proof (cases "i \<in> set ids")
    case True
    with Cons ok show ?thesis
      by (auto split: option.splits)
  next
    case False
    with Cons.prems have ij: "j = i" by simp
    from ok [of r] assms(2) ij obtain v where v: "parse (key_value r) = Some v"
      by auto
    show ?thesis
      using ij assms(2) v False by (simp add: get_db_keys_absent)
  qed
qed

lemma getFromRedis_db_independent:
  "getFromRedis (ks\<lparr> WppKeys := rows, db_rejects := b \<rparr>) now k = getFromRedis ks now k"
  by (simp add: getFromRedis_def split: option.splits)

lemma get_redis_keys_db_independent:
  "get_redis_keys parse (ks\<lparr> WppKeys := rows, db_rejects := b \<rparr>) now key ids acc
     = get_redis_keys parse ks now key ids acc"
  by (induction ids arbitrary: acc) (auto simp: getFromRedis_db_independent split: option.splits)

lemma getFromRedis_parses:
  "cache_parses parse ks \<Longrightarrow> getFromRedis ks now k = Some s \<Longrightarrow> parse s \<noteq> None"
  unfolding cache_parses_def getFromRedis_def
  by (simp split: option.splits if_splits prod.splits) blast

lemma get_redis_keys_ok:
  assumes "cache_parses parse ks"
  shows "\<exists>m. get_redis_keys parse ks now key ids acc = Inr m
            \<and> dom m \<subseteq> dom acc \<union> set ids
            \<and> (\<forall>i. getFromRedis ks now (key i) = None \<or> i \<notin> set ids \<longrightarrow> m i = acc i)"
proof (induction ids arbitrary: acc)
  case Nil
  show ?case by simp
next
  case (Cons j ids)
  show ?case
  proof (cases "getFromRedis ks now (key j)")
    case None
    with Cons [of acc] show ?thesis by auto
  next
    case (Some s)
    with assms obtain v where v: "parse s = Some v"
      using getFromRedis_parses by fastforce
    from Cons [of "acc(j \<mapsto> v)"] obtain m where
      m: "get_redis_keys parse ks now key ids (acc(j \<mapsto> v)) = Inr m"
         "dom m \<subseteq> dom (acc(j \<mapsto> v)) \<union> set ids"
         "\<forall>i. getFromRedis ks now (key i) = None \<or> i \<notin> set ids \<longrightarrow> m i = (acc(j \<mapsto> v)) i"
      by blast
    have "\<forall>i. getFromRedis ks now (key i) = None \<or> i \<notin> set (j # ids) \<longrightarrow> m i = acc i"
      using m(3) Some by auto
    with m(1,2) Some v show ?thesis by auto
  qed
qed

lemma get_redis_keys_all_absent:
  "\<forall>i\<in>set ids. getFromRedis ks now (key i) = None \<Longrightarrow>
     get_redis_keys parse ks now key ids acc = Inr acc"
  by (induction ids arbitrary: acc) auto

lemma store_hot:
  assumes "ktype \<in> set REDIS_KEY_TYPES"
  shows "WppKeys (StoreWppSessionKeys stringify ks now c d ktype k v) = WppKeys ks"
    and "redisClient ks = Some rc \<Longrightarrow> \<not> redis_rejects ks \<Longrightarrow>
           redisClient (StoreWppSessionKeys stringify ks now c d ktype k v)
             = Some (rc(redis_key c d ktype k \<mapsto> (stringify v, now + 7 * 24 * 60 * 60)))"
  using assms
  by (auto simp: StoreWppSessionKeys_def setInRedis_def REDIS_SESSION_TTL_def split: option.splits)

lemma hot_read_after_write:
  assumes "ktype \<in> set REDIS_KEY_TYPES" and "redisClient ks = Some rc" and "\<not> redis_rejects ks"
      and "stringify v \<noteq> []" and "parse (stringify v) = Some v"
  shows "GetWppSessionKeys parse (StoreWppSessionKeys stringify ks now c d ktype k v) t c d ktype [k]
           = (if t < now + 604800 then Inr [k \<mapsto> v] else Inr Map.empty)"
  using assms
  by (auto simp: GetWppSessionKeys_def StoreWppSessionKeys_def setInRedis_def getFromRedis_def
      REDIS_SESSION_TTL_def)

lemma store_durable:
  assumes "ktype \<notin> set REDIS_KEY_TYPES"
  shows "redisClient (StoreWppSessionKeys stringify ks now c d ktype k v) = redisClient ks"
    and "StoreWppSessionKeys stringify ks now' c d' ktype k v
           = StoreWppSessionKeys stringify ks now c d ktype k v"
    and "\<not> db_rejects ks \<Longrightarrow>
           \<exists>r. find (same_key c ktype k) (WppKeys (StoreWppSessionKeys stringify ks now c d ktype k v))
                  = Some r \<and> key_value r = stringify v"
    and "\<not> (c' = c \<and> t' = ktype \<and> k' = k) \<Longrightarrow>
           find (same_key c' t' k') (WppKeys (StoreWppSessionKeys stringify ks now c d ktype k v))
             = find (same_key c' t' k') (WppKeys ks)"
  using assms find_upsert_same [of c ktype k "stringify v" "WppKeys ks"]
    find_upsert_other [of c' c t' ktype k' k "stringify v" "WppKeys ks"]
  by (auto simp: StoreWppSessionKeys_def Let_def)

lemma get_durable_independent:
  "ktype \<notin> set REDIS_KEY_TYPES \<Longrightarrow>
     GetWppSessionKeys parse (ks\<lparr> redisClient := rc, redis_rejects := rb \<rparr>) now' c d' ktype ids
       = GetWppSessionKeys parse ks now c d ktype ids"
  by (simp add: GetWppSessionKeys_def)

lemma get_hot_independent:
  "ktype \<in> set REDIS_KEY_TYPES \<Longrightarrow>
     GetWppSessionKeys parse (ks\<lparr> WppKeys := rows, db_rejects := b \<rparr>) now c d ktype ids
       = GetWppSessionKeys parse ks now c d ktype ids"
  by (simp add: GetWppSessionKeys_def get_redis_keys_db_independent)

lemma store_keeps_parses:
  assumes "parse (stringify v) \<noteq> None"
  shows "cache_parses parse ks \<Longrightarrow>
           cache_parses parse (StoreWppSessionKeys stringify ks now c d ktype k v)"
    and "rows_parse parse ks \<Longrightarrow>
           rows_parse parse (StoreWppSessionKeys stringify ks now c d ktype k v)"
  using assms upsert_parses [of parse "WppKeys ks" "stringify v" c ktype k]
  by (auto simp: StoreWppSessionKeys_def setInRedis_def cache_parses_def rows_parse_def Let_def
      split: option.splits if_splits)

text \<open>
  C3, as stated, fails on the durable branch: the table has no device column, the upsert
  and the lookup name the connection, the type and the key id only. A value written for
  device 2 replaces the one written for device 1, and a read for device 1 returns it.
\<close>

theorem durable_key_counterexample:
  "map_sum id (\<lambda>m. m ''k1'')
     (GetWppSessionKeys Some
        (StoreWppSessionKeys (\<lambda>v. v)
           (StoreWppSessionKeys (\<lambda>v. v) ex_key_store 0 1 1 ''pre-key'' ''k1'' ''A'')
           0 1 2 ''pre-key'' ''k1'' ''B'')
        0 1 1 ''pre-key'' [''k1''])
     = Inr (Some ''B'')
   \<and> length (WppKeys
        (StoreWppSessionKeys (\<lambda>v. v)
           (StoreWppSessionKeys (\<lambda>v. v) ex_key_store 0 1 1 ''pre-key'' ''k1'' ''A'')
           0 1 2 ''pre-key'' ''k1'' ''B'')) = 1"
  by (simp add: GetWppSessionKeys_def StoreWppSessionKeys_def REDIS_KEY_TYPES_def
      ex_key_store_def upsert_def same_key_def)

text \<open>
  C3, amended. For a hot type (session, sender-keys, sender-key-memory) a write leaves the
  table alone and, when the cache is connected, stores the value under the key made from
  the connection, the device, the type and the key id, to expire 7 days (604800 s) after
  the write; a read does not depend on the table, and returns the value until that moment
  and nothing from then on. For every other type a write leaves the cache alone and
  upserts the row that the connection, the type and the key id name, whatever the device;
  rows of other keys stay as they are; a read does not depend on the cache nor on the
  device.
\<close>

theorem key_routing:
  "(hot \<in> set REDIS_KEY_TYPES \<longrightarrow>
      WppKeys (StoreWppSessionKeys stringify ks now c d hot k v) = WppKeys ks
      \<and> (redisClient ks = Some rc \<and> \<not> redis_rejects ks \<longrightarrow>
           redisClient (StoreWppSessionKeys stringify ks now c d hot k v)
             = Some (rc(redis_key c d hot k \<mapsto> (stringify v, now + 7 * 24 * 60 * 60))))
      \<and> GetWppSessionKeys parse (ks\<lparr> WppKeys := rows, db_rejects := b \<rparr>) now c d hot ids
           = GetWppSessionKeys parse ks now c d hot ids
      \<and> (redisClient ks = Some rc \<and> \<not> redis_rejects ks \<and> stringify v \<noteq> []
          \<and> parse (stringify v) = Some v \<longrightarrow>
           GetWppSessionKeys parse (StoreWppSessionKeys stringify ks now c d hot k v) t c d hot [k]
             = (if t < now + 604800 then Inr [k \<mapsto> v] else Inr Map.empty)))
   \<and> (dur \<notin> set REDIS_KEY_TYPES \<longrightarrow>
        redisClient (StoreWppSessionKeys stringify ks now c d dur k v) = redisClient ks
        \<and> StoreWppSessionKeys stringify ks now' c d' dur k v
             = StoreWppSessionKeys stringify ks now c d dur k v
        \<and> (\<not> db_rejects ks \<longrightarrow>
             (\<exists>r. find (same_key c dur k)
                     (WppKeys (StoreWppSessionKeys stringify ks now c d dur k v)) = Some r
                  \<and> key_value r = stringify v))
        \<and> (\<not> (c' = c \<and> t' = dur \<and> k' = k) \<longrightarrow>
             find (same_key c' t' k') (WppKeys (StoreWppSessionKeys stringify ks now c d dur k v))
               = find (same_key c' t' k') (WppKeys ks))
        \<and> GetWppSessionKeys parse (ks\<lparr> redisClient := rc', redis_rejects := rb \<rparr>) now' c d' dur ids
             = GetWppSessionKeys parse ks now c d dur ids)"
proof -
  have h1: "hot \<in> set REDIS_KEY_TYPES \<Longrightarrow>
      WppKeys (StoreWppSessionKeys stringify ks now c d hot k v) = WppKeys ks"
    by (rule store_hot(1))
  have h2: "hot \<in> set REDIS_KEY_TYPES \<Longrightarrow> redisClient ks = Some rc \<Longrightarrow> \<not> redis_rejects ks \<Longrightarrow>
      redisClient (StoreWppSessionKeys stringify ks now c d hot k v)
        = Some (rc(redis_key c d hot k \<mapsto> (stringify v, now + 7 * 24 * 60 * 60)))"
    by (rule store_hot(2))
  have h3: "hot \<in> set REDIS_KEY_TYPES \<Longrightarrow>
      GetWppSessionKeys parse (ks\<lparr> WppKeys := rows, db_rejects := b \<rparr>) now c d hot ids
        = GetWppSessionKeys parse ks now c d hot ids"
    by (rule get_hot_independent)
  have h4: "hot \<in> set REDIS_KEY_TYPES \<Longrightarrow> redisClient ks = Some rc \<Longrightarrow> \<not> redis_rejects ks \<Longrightarrow>
      stringify v \<noteq> [] \<Longrightarrow> parse (stringify v) = Some v \<Longrightarrow>
      GetWppSessionKeys parse (StoreWppSessionKeys stringify ks now c d hot k v) t c d hot [k]
        = (if t < now + 604800 then Inr [k \<mapsto> v] else Inr Map.empty)"
    by (rule hot_read_after_write)
  have d1: "dur \<notin> set REDIS_KEY_TYPES \<Longrightarrow>
      redisClient (StoreWppSessionKeys stringify ks now c d dur k v) = redisClient ks"
    by (rule store_durable(1))
  have d2: "dur \<notin> set REDIS_KEY_TYPES \<Longrightarrow>
      StoreWppSessionKeys stringify ks now' c d' dur k v
        = StoreWppSessionKeys stringify ks now c d dur k v"
    by (rule store_durable(2))
  have d3: "dur \<notin> set REDIS_KEY_TYPES \<Longrightarrow> \<not> db_rejects ks \<Longrightarrow>
      \<exists>r. find (same_key c dur k)
             (WppKeys (StoreWppSessionKeys stringify ks now c d dur k v)) = Some r
          \<and> key_value r = stringify v"
    by (rule store_durable(3))
  have d4: "dur \<notin> set REDIS_KEY_TYPES \<Longrightarrow> \<not> (c' = c \<and> t' = dur \<and> k' = k) \<Longrightarrow>
      find (same_key c' t' k') (WppKeys (StoreWppSessionKeys stringify ks now c d dur k v))
        = find (same_key c' t' k') (WppKeys ks)"
    by (rule store_durable(4))
  have d5: "dur \<notin> set REDIS_KEY_TYPES \<Longrightarrow>
      GetWppSessionKeys parse (ks\<lparr> redisClient := rc', redis_rejects := rb \<rparr>) now' c d' dur ids
        = GetWppSessionKeys parse ks now c d dur ids"
    by (rule get_durable_independent)
  show ?thesis
    using h1 h2 h3 h4 d1 d2 d3 d4 d5 by blast
qed

theorem key_routing_witness:
  "WppKeys (StoreWppSessionKeys (\<lambda>v. v) ex_key_store 100 1 1 ''session'' ''k1'' ''A'') = []
   \<and> GetWppSessionKeys Some (StoreWppSessionKeys (\<lambda>v. v) ex_key_store 100 1 1 ''session'' ''k1'' ''A'')
        604899 1 1 ''session'' [''k1''] = Inr [''k1'' \<mapsto> ''A'']
   \<and> GetWppSessionKeys Some (StoreWppSessionKeys (\<lambda>v. v) ex_key_store 100 1 1 ''session'' ''k1'' ''A'')
        604900 1 1 ''session'' [''k1''] = Inr Map.empty
   \<and> redisClient (StoreWppSessionKeys (\<lambda>v. v) ex_key_store 100 1 1 ''pre-key'' ''k1'' ''A'')
        = Some Map.empty
   \<and> map_option key_value
        (find (same_key 1 ''pre-key'' ''k1'')
           (WppKeys (StoreWppSessionKeys (\<lambda>v. v) ex_key_store 100 1 1 ''pre-key'' ''k1'' ''A'')))
        = Some ''A''"
proof -
  have h: "''session'' \<in> set REDIS_KEY_TYPES" and d: "''pre-key'' \<notin> set REDIS_KEY_TYPES"
    by (simp_all add: REDIS_KEY_TYPES_def)
  have rc: "redisClient ex_key_store = Some Map.empty" "\<not> redis_rejects ex_key_store"
      "\<not> db_rejects ex_key_store" "WppKeys ex_key_store = []"
    by (simp_all add: ex_key_store_def)
  note T = key_routing [where hot = "''session''" and dur = "''pre-key''"
      and stringify = "\<lambda>v. v" and parse = Some and ks = ex_key_store and now = 100 and c = 1
      and d = 1 and k = "''k1''" and v = "''A''" and rc = Map.empty]
  from T [where t = 604899] h rc
  have a: "GetWppSessionKeys Some
      (StoreWppSessionKeys (\<lambda>v. v) ex_key_store 100 1 1 ''session'' ''k1'' ''A'')
      604899 1 1 ''session'' [''k1''] = Inr [''k1'' \<mapsto> ''A'']"
    by simp
  from T [where t = 604900] h rc
  have b: "GetWppSessionKeys Some
      (StoreWppSessionKeys (\<lambda>v. v) ex_key_store 100 1 1 ''session'' ''k1'' ''A'')
      604900 1 1 ''session'' [''k1''] = Inr Map.empty"
    by simp
  from T [where t = 0] h rc
  have c: "WppKeys (StoreWppSessionKeys (\<lambda>v. v) ex_key_store 100 1 1 ''session'' ''k1'' ''A'') = []"
    by simp
  from T [where t = 0] d rc
  have e: "redisClient (StoreWppSessionKeys (\<lambda>v. v) ex_key_store 100 1 1 ''pre-key'' ''k1'' ''A'')
      = Some Map.empty"
    by simp
  from T [where t = 0] d rc
  have "\<exists>r. find (same_key 1 ''pre-key'' ''k1'')
         (WppKeys (StoreWppSessionKeys (\<lambda>v. v) ex_key_store 100 1 1 ''pre-key'' ''k1'' ''A'')) = Some r
       \<and> key_value r = ''A''"
    by blast
  then have f: "map_option key_value
        (find (same_key 1 ''pre-key'' ''k1'')
           (WppKeys (StoreWppSessionKeys (\<lambda>v. v) ex_key_store 100 1 1 ''pre-key'' ''k1'' ''A'')))
        = Some ''A''"
    by auto
  from a b c e f show ?thesis by simp
qed

text \<open>
  C4. A value written under a durable type is what a later read returns for its id,
  whatever else is asked for in the same read and for whichever device, as long as the
  database answers and the stored texts are ones \<open>JSON.parse\<close> reads (which every text that
  \<open>StoreWppSessionKeys\<close> writes is). A read returns a mapping over the requested ids only,
  and an id with no row, or with no live entry in the cache, is absent from it. A read of
  a durable type never throws; a read of a hot type throws only if the cache holds a text
  that \<open>JSON.parse\<close> rejects, so never for ids that are not in the cache.
\<close>

theorem key_round_trip:
  "(dur \<notin> set REDIS_KEY_TYPES \<and> \<not> db_rejects ks \<and> parse (stringify v) = Some v \<longrightarrow>
      GetWppSessionKeys parse (StoreWppSessionKeys stringify ks now c d dur k v) now' c d' dur [k]
        = Inr [k \<mapsto> v]
      \<and> (rows_parse parse ks \<and> k \<in> set ids \<longrightarrow>
           (\<exists>m. GetWppSessionKeys parse (StoreWppSessionKeys stringify ks now c d dur k v)
                   now' c d' dur ids = Inr m
                \<and> m k = Some v)))
   \<and> (dur \<notin> set REDIS_KEY_TYPES \<longrightarrow>
        (\<exists>m. GetWppSessionKeys parse ks now c d dur ids = Inr m
             \<and> dom m \<subseteq> set ids
             \<and> (\<forall>i. find (same_key c dur i) (WppKeys ks) = None \<longrightarrow> m i = None)))
   \<and> (hot \<in> set REDIS_KEY_TYPES \<and> cache_parses parse ks \<longrightarrow>
        (\<exists>m. GetWppSessionKeys parse ks now c d hot ids = Inr m
             \<and> dom m \<subseteq> set ids
             \<and> (\<forall>i. getFromRedis ks now (redis_key c d hot i) = None \<longrightarrow> m i = None)))
   \<and> (hot \<in> set REDIS_KEY_TYPES
       \<and> (\<forall>i\<in>set ids. getFromRedis ks now (redis_key c d hot i) = None) \<longrightarrow>
        GetWppSessionKeys parse ks now c d hot ids = Inr Map.empty)
   \<and> (parse (stringify v) = Some v \<and> cache_parses parse ks \<and> rows_parse parse ks \<longrightarrow>
        cache_parses parse (StoreWppSessionKeys stringify ks now c d any k v)
        \<and> rows_parse parse (StoreWppSessionKeys stringify ks now c d any k v))"
proof -
  have one: "GetWppSessionKeys parse (StoreWppSessionKeys stringify ks now c d dur k v)
        now' c d' dur [k] = Inr [k \<mapsto> v]"
    if "dur \<notin> set REDIS_KEY_TYPES" "\<not> db_rejects ks" "parse (stringify v) = Some v"
  proof -
    from store_durable(3) [OF that(1,2), where c = c and k = k and stringify = stringify
        and now = now and d = d and v = v]
    obtain r where "find (same_key c dur k)
        (WppKeys (StoreWppSessionKeys stringify ks now c d dur k v)) = Some r"
      "key_value r = stringify v" by blast
    moreover have "db_rejects (StoreWppSessionKeys stringify ks now c d dur k v) = db_rejects ks"
      using that(1) by (simp add: StoreWppSessionKeys_def Let_def)
    ultimately show ?thesis
      using that by (simp add: GetWppSessionKeys_def)
  qed
  have many: "\<exists>m. GetWppSessionKeys parse (StoreWppSessionKeys stringify ks now c d dur k v)
                   now' c d' dur ids = Inr m \<and> m k = Some v"
    if "dur \<notin> set REDIS_KEY_TYPES" "\<not> db_rejects ks" "parse (stringify v) = Some v"
       "rows_parse parse ks" "k \<in> set ids"
  proof -
    let ?ks = "StoreWppSessionKeys stringify ks now c d dur k v"
    from store_durable(3) [OF that(1,2), where c = c and k = k and stringify = stringify
        and now = now and d = d and v = v]
    obtain r where r: "find (same_key c dur k) (WppKeys ?ks) = Some r"
      "key_value r = stringify v" by blast
    have nr: "db_rejects ?ks = db_rejects ks"
      using that(1) by (simp add: StoreWppSessionKeys_def Let_def)
    have "rows_parse parse ?ks"
      using store_keeps_parses(2) [where parse = parse and stringify = stringify and v = v
          and ks = ks] that(3,4)
      by simp
    then have "list_all (\<lambda>r. parse (key_value r) \<noteq> None) (WppKeys ?ks)"
      by (simp add: rows_parse_def)
    from get_db_keys_present [OF this r(1) that(5), of Map.empty]
    show ?thesis
      using that(1,2,3) nr r(2) by (simp add: GetWppSessionKeys_def)
  qed
  have durable_total: "\<exists>m. GetWppSessionKeys parse ks now c d dur ids = Inr m
             \<and> dom m \<subseteq> set ids
             \<and> (\<forall>i. find (same_key c dur i) (WppKeys ks) = None \<longrightarrow> m i = None)"
    if "dur \<notin> set REDIS_KEY_TYPES"
    using that get_db_keys_dom [of parse "WppKeys ks" c dur ids]
      get_db_keys_absent [where ids = ids and c = c and t = dur and rows = "WppKeys ks"
        and parse = parse and acc = Map.empty]
    by (auto simp: GetWppSessionKeys_def)
  have hot_total: "\<exists>m. GetWppSessionKeys parse ks now c d hot ids = Inr m
             \<and> dom m \<subseteq> set ids
             \<and> (\<forall>i. getFromRedis ks now (redis_key c d hot i) = None \<longrightarrow> m i = None)"
    if "hot \<in> set REDIS_KEY_TYPES" "cache_parses parse ks"
    using that(1) get_redis_keys_ok [OF that(2), where now = now and key = "redis_key c d hot"
        and ids = ids and acc = Map.empty]
    by (auto simp: GetWppSessionKeys_def)
  have hot_absent: "GetWppSessionKeys parse ks now c d hot ids = Inr Map.empty"
    if "hot \<in> set REDIS_KEY_TYPES" "\<forall>i\<in>set ids. getFromRedis ks now (redis_key c d hot i) = None"
    using that get_redis_keys_all_absent [where ids = ids and ks = ks and now = now
        and key = "redis_key c d hot" and parse = parse and acc = Map.empty]
    by (simp add: GetWppSessionKeys_def)
  have keeps: "cache_parses parse (StoreWppSessionKeys stringify ks now c d any k v)
        \<and> rows_parse parse (StoreWppSessionKeys stringify ks now c d any k v)"
    if "parse (stringify v) = Some v" "cache_parses parse ks" "rows_parse parse ks"
    using store_keeps_parses [where parse = parse and stringify = stringify and v = v] that
    by simp
  show ?thesis
    using one many durable_total hot_total hot_absent keeps by blast
qed

theorem key_round_trip_witness:
  "GetWppSessionKeys Some (StoreWppSessionKeys (\<lambda>v. v) ex_key_store 0 1 1 ''identity-key'' ''k1'' ''V'')
      5 1 1 ''identity-key'' [''k1''] = Inr [''k1'' \<mapsto> ''V'']
   \<and> GetWppSessionKeys Some ex_key_store 0 1 1 ''identity-key'' [''k1''] = Inr Map.empty
   \<and> GetWppSessionKeys Some ex_key_store 0 1 1 ''session'' [''k1''] = Inr Map.empty"
proof -
  have d: "''identity-key'' \<notin> set REDIS_KEY_TYPES" and h: "''session'' \<in> set REDIS_KEY_TYPES"
    by (simp_all add: REDIS_KEY_TYPES_def)
  have ok: "\<not> db_rejects ex_key_store" "WppKeys ex_key_store = []"
    by (simp_all add: ex_key_store_def)
  have none: "\<forall>i\<in>set [''k1'']. getFromRedis ex_key_store 0 (redis_key 1 1 ''session'' i) = None"
    by (simp add: getFromRedis_def ex_key_store_def)
  note T = key_round_trip [where dur = "''identity-key''" and hot = "''session''"
      and ks = ex_key_store and parse = Some and stringify = "\<lambda>v. v" and v = "''V''" and now = 0
      and c = 1 and d = 1 and k = "''k1''" and now' = 5 and d' = 1 and ids = "[''k1'']"]
  from T d ok have a: "GetWppSessionKeys Some
      (StoreWppSessionKeys (\<lambda>v. v) ex_key_store 0 1 1 ''identity-key'' ''k1'' ''V'')
      5 1 1 ''identity-key'' [''k1''] = Inr [''k1'' \<mapsto> ''V'']"
    by simp
  from T d obtain m where m: "GetWppSessionKeys Some ex_key_store 0 1 1 ''identity-key'' [''k1'']
      = Inr m" "dom m \<subseteq> set [''k1'']"
      "\<forall>i. find (same_key 1 ''identity-key'' i) (WppKeys ex_key_store) = None \<longrightarrow> m i = None"
    by blast
  from m(3) ok have "m = Map.empty" by auto
  with m(1) have b: "GetWppSessionKeys Some ex_key_store 0 1 1 ''identity-key'' [''k1'']
      = Inr Map.empty"
    by simp
  from T h none have c: "GetWppSessionKeys Some ex_key_store 0 1 1 ''session'' [''k1'']
      = Inr Map.empty"
    by blast
  from a b c show ?thesis by simp
qed

section \<open>Contact upsert\<close>

lemma find_none: "find P xs = None \<Longrightarrow> x \<in> set xs \<Longrightarrow> \<not> P x"
  by (induction xs) (auto split: if_splits)

lemma same_id_same_contact:
  "distinct (map contact_id cs) \<Longrightarrow> a \<in> set cs \<Longrightarrow> b \<in> set cs \<Longrightarrow>
     contact_id a = contact_id b \<Longrightarrow> a = b"
  by (induction cs) (auto simp: image_iff)

lemma filter_eq_single: "distinct cs \<Longrightarrow> c \<in> set cs \<Longrightarrow> filter (\<lambda>x. x = c) cs = [c]"
  by (induction cs) (auto simp: filter_empty_conv)

lemma one_match:
  assumes "distinct (map contact_id cs)" and "c \<in> set cs" and "P c"
      and "\<forall>x\<in>set cs. P x \<longrightarrow> contact_id x = contact_id c"
  shows "filter P cs = [c]"
proof -
  have "P x \<longleftrightarrow> x = c" if "x \<in> set cs" for x
  proof
    assume "P x"
    with assms(4) that have "contact_id x = contact_id c" by blast
    then show "x = c" by (rule same_id_same_contact [OF assms(1) that assms(2)])
  next
    assume "x = c" with assms(3) show "P x" by simp
  qed
  then have "filter P cs = filter (\<lambda>x. x = c) cs"
    by (intro filter_cong) auto
  moreover have "distinct cs"
    using assms(1) by (simp add: distinct_map)
  ultimately show ?thesis
    using assms(2) by (simp add: filter_eq_single)
qed

lemma replace_row_ids:
  "map contact_id (map (\<lambda>r. if contact_id r = contact_id u then u else r) cs) = map contact_id cs"
  by (induction cs) auto

lemma replace_row_mem:
  "old \<in> set cs \<Longrightarrow> contact_id u = contact_id old \<Longrightarrow>
     u \<in> set (map (\<lambda>r. if contact_id r = contact_id u then u else r) cs)"
  by (induction cs) auto

lemma replace_row_cases:
  "x \<in> set (map (\<lambda>r. if contact_id r = contact_id u then u else r) cs) \<Longrightarrow>
     x = u \<or> (x \<in> set cs \<and> contact_id x \<noteq> contact_id u)"
  by (induction cs) (auto split: if_splits)

lemma by_number_unique:
  assumes "crm_ok db" and "findByNumber db n = Some cn" and "a \<in> set (Contacts db)"
      and "contact_number a = Some n"
  shows "contact_id a = contact_id cn"
proof -
  from find_in_set [OF assms(2) [unfolded findByNumber_def]]
  have "cn \<in> set (Contacts db)" "contact_number cn = Some n" by simp_all
  with assms(1,3,4) show ?thesis
    unfolding crm_ok_def by (metis option.distinct(1))
qed

lemma by_lid_unique:
  assumes "crm_ok db" and "findByLid db l = Some cl" and "a \<in> set (Contacts db)"
      and "contact_lid a = Some l"
  shows "contact_id a = contact_id cl"
proof -
  from find_in_set [OF assms(2) [unfolded findByLid_def]]
  have "cl \<in> set (Contacts db)" "contact_lid cl = Some l" by simp_all
  with assms(1,3,4) show ?thesis
    unfolding crm_ok_def by (metis option.distinct(1))
qed

lemma update_branch:
  assumes "crm_ok db" and "old \<in> set (Contacts db)" and "contact_id u = contact_id old"
      and "matches n l u"
      and "\<forall>x\<in>set (Contacts db). contact_id x \<noteq> contact_id old \<longrightarrow> \<not> matches n l x"
  shows "filter (matches n l) (Contacts (emitContact action u (save_contact u db))) = [u]"
proof -
  let ?cs = "map (\<lambda>r. if contact_id r = contact_id u then u else r) (Contacts db)"
  have cs: "Contacts (emitContact action u (save_contact u db)) = ?cs"
    by (simp add: emitContact_def save_contact_def)
  have d: "distinct (map contact_id ?cs)"
    unfolding replace_row_ids using assms(1) by (simp add: crm_ok_def)
  have m: "u \<in> set ?cs"
    using assms(2,3) by (rule replace_row_mem)
  have o: "\<forall>x\<in>set ?cs. matches n l x \<longrightarrow> contact_id x = contact_id u"
    using replace_row_cases [of _ u "Contacts db"] assms(3,5) by metis
  show ?thesis
    unfolding cs using d m assms(4) o by (rule one_match)
qed

lemma service_unfold:
  assumes "n = (if req_isGroup req then req_number req else digits_only (req_number req))"
      and "n \<noteq> []" and "req_lid req = Some l" and "l \<noteq> []"
  shows "CreateOrUpdateContactService db req =
     (case (findByNumber db n, findByLid db l) of
        (Some byNumber, Some byLid) \<Rightarrow>
          if contact_id byNumber \<noteq> contact_id byLid
          then
            (let merged = byNumber\<lparr> contact_lid := contact_lid byLid,
                                    contact_profilePicUrl := req_profilePicUrl req \<rparr>
             in (Inr merged,
                 emitContact ContactUpdate merged
                   (save_contact merged
                      (db\<lparr> Tickets :=
                            map (\<lambda>t. if ticket_contactId t = contact_id byLid
                                      then t\<lparr> ticket_contactId := contact_id byNumber \<rparr>
                                      else t) (Tickets db),
                          Contacts :=
                            filter (\<lambda>c. contact_id c \<noteq> contact_id byLid) (Contacts db) \<rparr>))))
          else
            (let updated = byNumber\<lparr> contact_lid := Some l,
                                     contact_profilePicUrl := req_profilePicUrl req \<rparr>
             in (Inr updated, emitContact ContactUpdate updated (save_contact updated db)))
      | (Some byNumber, None) \<Rightarrow>
          (let updated = byNumber\<lparr> contact_lid := Some l,
                                   contact_profilePicUrl := req_profilePicUrl req \<rparr>
           in (Inr updated, emitContact ContactUpdate updated (save_contact updated db)))
      | (None, Some byLid) \<Rightarrow>
          (let updated = byLid\<lparr> contact_number := Some n,
                                contact_profilePicUrl := req_profilePicUrl req \<rparr>
           in (Inr updated, emitContact ContactUpdate updated (save_contact updated db)))
      | (None, None) \<Rightarrow>
          (let created =
                 \<lparr> contact_id = next_contact_id db, contact_name = req_name req,
                   contact_number = Some n, contact_lid = Some l,
                   contact_profilePicUrl = req_profilePicUrl req,
                   contact_isGroup = req_isGroup req,
                   contact_email = or_empty (req_email req) \<rparr>
           in (Inr created,
               emitContact ContactCreate created
                 (db\<lparr> Contacts := Contacts db @ [created],
                      next_contact_id := Suc (next_contact_id db) \<rparr>))))"
proof (cases "req_isGroup req")
  case True
  with assms show ?thesis
    by (simp add: CreateOrUpdateContactService_def Let_def truthy_def or_empty_def
        split: option.splits)
next
  case False
  with assms show ?thesis
    by (simp add: CreateOrUpdateContactService_def Let_def truthy_def or_empty_def
        split: option.splits)
qed

lemma merge_branch:
  assumes ok: "crm_ok db" and cn: "findByNumber db n = Some cn" and cl: "findByLid db l = Some cl"
      and ne: "contact_id cn \<noteq> contact_id cl" and u: "contact_id u = contact_id cn"
      and mu: "matches n l u"
  shows "filter (matches n l)
           (Contacts (emitContact action u
              (save_contact u
                 (db\<lparr> Tickets := ts,
                     Contacts := filter (\<lambda>c. contact_id c \<noteq> contact_id cl) (Contacts db) \<rparr>))))
         = [u]"
proof -
  let ?kept = "filter (\<lambda>c. contact_id c \<noteq> contact_id cl) (Contacts db)"
  let ?cs = "map (\<lambda>r. if contact_id r = contact_id u then u else r) ?kept"
  have cs: "Contacts (emitContact action u
              (save_contact u (db\<lparr> Tickets := ts, Contacts := ?kept \<rparr>))) = ?cs"
    by (simp add: emitContact_def save_contact_def)
  from find_in_set [OF cn [unfolded findByNumber_def]]
  have cn_in: "cn \<in> set (Contacts db)" by simp
  have d: "distinct (map contact_id ?cs)"
    unfolding replace_row_ids using ok by (simp add: crm_ok_def distinct_map_filter)
  have "cn \<in> set ?kept"
    using cn_in ne by simp
  then have m: "u \<in> set ?cs"
    using u by (rule replace_row_mem)
  have o: "\<forall>x\<in>set ?cs. matches n l x \<longrightarrow> contact_id x = contact_id u"
  proof (intro ballI impI)
    fix x
    assume x: "x \<in> set ?cs" and mx: "matches n l x"
    from replace_row_cases [OF x]
    show "contact_id x = contact_id u"
    proof
      assume "x = u" then show ?thesis by simp
    next
      assume "x \<in> set ?kept \<and> contact_id x \<noteq> contact_id u"
      then have xin: "x \<in> set (Contacts db)" and xl: "contact_id x \<noteq> contact_id cl"
        and xn: "contact_id x \<noteq> contact_id cn"
        using u by simp_all
      from mx have "contact_number x = Some n \<or> contact_lid x = Some l"
        by (simp add: matches_def)
      then show ?thesis
        using by_number_unique [OF ok cn xin] by_lid_unique [OF ok cl xin] xl xn by blast
    qed
  qed
  show ?thesis
    unfolding cs using d m mu o by (rule one_match)
qed

lemma create_branch:
  assumes ok: "crm_ok db" and "findByNumber db n = None" and "findByLid db l = None"
      and "contact_id u = next_contact_id db" and mu: "matches n l u"
  shows "filter (matches n l)
           (Contacts (emitContact action u
              (db\<lparr> Contacts := Contacts db @ [u], next_contact_id := k \<rparr>))) = [u]"
proof -
  have "\<not> matches n l x" if "x \<in> set (Contacts db)" for x
    using that assms(2,3) find_none [of "\<lambda>c. contact_number c = Some n" "Contacts db" x]
      find_none [of "\<lambda>c. contact_lid c = Some l" "Contacts db" x]
    by (auto simp: matches_def findByNumber_def findByLid_def)
  then have "filter (matches n l) (Contacts db) = []"
    by (simp add: filter_empty_conv)
  then show ?thesis
    using mu by (simp add: emitContact_def)
qed

text \<open>
  C9. For a payload that carries a number and a linked-device id, in a store that respects
  the primary key and the two unique columns: when the number and the lid find two
  different contacts, the service moves every ticket of the contact found by lid to the
  contact found by number, destroys the contact found by lid, and returns the contact
  found by number with the lid on it; and after every call exactly one stored contact
  matches the number or the lid, it is the contact returned, and it carries both.
\<close>

theorem contact_upsert_merges:
  assumes ok: "crm_ok db"
      and n: "n = (if req_isGroup req then req_number req else digits_only (req_number req))"
      and nn: "n \<noteq> []" and l: "req_lid req = Some l" and ln: "l \<noteq> []"
  shows "(\<forall>cn cl. findByNumber db n = Some cn \<and> findByLid db l = Some cl
                  \<and> contact_id cn \<noteq> contact_id cl \<longrightarrow>
            fst (CreateOrUpdateContactService db req)
              = Inr (cn\<lparr> contact_lid := Some l, contact_profilePicUrl := req_profilePicUrl req \<rparr>)
            \<and> Tickets (snd (CreateOrUpdateContactService db req))
                = map (\<lambda>t. if ticket_contactId t = contact_id cl
                            then t\<lparr> ticket_contactId := contact_id cn \<rparr> else t) (Tickets db)
            \<and> (\<forall>t\<in>set (Tickets (snd (CreateOrUpdateContactService db req))).
                  ticket_contactId t \<noteq> contact_id cl)
            \<and> (\<forall>c\<in>set (Contacts (snd (CreateOrUpdateContactService db req))).
                  contact_id c \<noteq> contact_id cl))
         \<and> (\<exists>c. fst (CreateOrUpdateContactService db req) = Inr c
                \<and> contact_number c = Some n \<and> contact_lid c = Some l
                \<and> filter (matches n l) (Contacts (snd (CreateOrUpdateContactService db req))) = [c])"
proof -
  define S where "S = CreateOrUpdateContactService db req"
  note unfold = service_unfold [OF n nn l ln, of db, folded S_def]
  have goal: "(\<forall>cn cl. findByNumber db n = Some cn \<and> findByLid db l = Some cl
                  \<and> contact_id cn \<noteq> contact_id cl \<longrightarrow>
            fst S = Inr (cn\<lparr> contact_lid := Some l, contact_profilePicUrl := req_profilePicUrl req \<rparr>)
            \<and> Tickets (snd S)
                = map (\<lambda>t. if ticket_contactId t = contact_id cl
                            then t\<lparr> ticket_contactId := contact_id cn \<rparr> else t) (Tickets db)
            \<and> (\<forall>t\<in>set (Tickets (snd S)). ticket_contactId t \<noteq> contact_id cl)
            \<and> (\<forall>c\<in>set (Contacts (snd S)). contact_id c \<noteq> contact_id cl))
         \<and> (\<exists>c. fst S = Inr c \<and> contact_number c = Some n \<and> contact_lid c = Some l
                \<and> filter (matches n l) (Contacts (snd S)) = [c])"
  proof (cases "findByNumber db n")
    case None
    note noNumber = None
    show ?thesis
    proof (cases "findByLid db l")
      case None
      let ?c = "\<lparr> contact_id = next_contact_id db, contact_name = req_name req,
                  contact_number = Some n, contact_lid = Some l,
                  contact_profilePicUrl = req_profilePicUrl req,
                  contact_isGroup = req_isGroup req,
                  contact_email = or_empty (req_email req) \<rparr>"
      let ?db = "emitContact ContactCreate ?c
                 (db\<lparr> Contacts := Contacts db @ [?c],
                      next_contact_id := Suc (next_contact_id db) \<rparr>)"
      have res: "fst S = Inr ?c" "snd S = ?db"
        by (simp_all add: unfold noNumber None Let_def)
      have one: "filter (matches n l) (Contacts ?db) = [?c]"
        using ok noNumber None by (rule create_branch) (simp_all add: matches_def)
      have "\<exists>c. fst S = Inr c \<and> contact_number c = Some n \<and> contact_lid c = Some l
                \<and> filter (matches n l) (Contacts (snd S)) = [c]"
        unfolding res using one by (intro exI [of _ ?c]) simp
      then show ?thesis
        by (simp add: noNumber)
    next
      case (Some cl)
      from find_in_set [OF Some [unfolded findByLid_def]]
      have cl_in: "cl \<in> set (Contacts db)" and cl_lid: "contact_lid cl = Some l" by simp_all
      let ?u = "cl\<lparr> contact_number := Some n, contact_profilePicUrl := req_profilePicUrl req \<rparr>"
      let ?db = "emitContact ContactUpdate ?u (save_contact ?u db)"
      have res: "fst S = Inr ?u" "snd S = ?db"
        by (simp_all add: unfold noNumber Some Let_def)
      have others: "\<forall>x\<in>set (Contacts db). contact_id x \<noteq> contact_id cl \<longrightarrow> \<not> matches n l x"
        using by_lid_unique [OF ok Some]
          find_none [OF noNumber [unfolded findByNumber_def]]
        by (auto simp: matches_def)
      have one: "filter (matches n l) (Contacts ?db) = [?u]"
        using ok cl_in _ _ others by (rule update_branch) (simp_all add: matches_def)
      have "\<exists>c. fst S = Inr c \<and> contact_number c = Some n \<and> contact_lid c = Some l
                \<and> filter (matches n l) (Contacts (snd S)) = [c]"
        unfolding res using one cl_lid by (intro exI [of _ ?u]) simp
      then show ?thesis
        by (simp add: noNumber)
    qed
  next
    case (Some cn)
    note byNumber = Some
    from find_in_set [OF Some [unfolded findByNumber_def]]
    have cn_in: "cn \<in> set (Contacts db)" and cn_number: "contact_number cn = Some n"
      by simp_all
    let ?u = "cn\<lparr> contact_lid := Some l, contact_profilePicUrl := req_profilePicUrl req \<rparr>"
    let ?db = "emitContact ContactUpdate ?u (save_contact ?u db)"
    show ?thesis
    proof (cases "findByLid db l")
      case None
      have res: "fst S = Inr ?u" "snd S = ?db"
        by (simp_all add: unfold byNumber None Let_def)
      have others: "\<forall>x\<in>set (Contacts db). contact_id x \<noteq> contact_id cn \<longrightarrow> \<not> matches n l x"
        using by_number_unique [OF ok byNumber]
          find_none [OF None [unfolded findByLid_def]]
        by (auto simp: matches_def)
      have one: "filter (matches n l) (Contacts ?db) = [?u]"
        using ok cn_in _ _ others by (rule update_branch) (simp_all add: matches_def cn_number)
      have "\<exists>c. fst S = Inr c \<and> contact_number c = Some n \<and> contact_lid c = Some l
                \<and> filter (matches n l) (Contacts (snd S)) = [c]"
        unfolding res using one cn_number by (intro exI [of _ ?u]) simp
      then show ?thesis
        by (simp add: None)
    next
      case (Some cl)
      from find_in_set [OF Some [unfolded findByLid_def]]
      have cl_in: "cl \<in> set (Contacts db)" and cl_lid: "contact_lid cl = Some l" by simp_all
      show ?thesis
      proof (cases "contact_id cn = contact_id cl")
        case True
        have res: "fst S = Inr ?u" "snd S = ?db"
          by (simp_all add: unfold byNumber Some True Let_def)
        have others: "\<forall>x\<in>set (Contacts db). contact_id x \<noteq> contact_id cn \<longrightarrow> \<not> matches n l x"
          using by_number_unique [OF ok byNumber] by_lid_unique [OF ok Some] True
          by (auto simp: matches_def)
        have one: "filter (matches n l) (Contacts ?db) = [?u]"
          using ok cn_in _ _ others by (rule update_branch) (simp_all add: matches_def cn_number)
        have "\<exists>c. fst S = Inr c \<and> contact_number c = Some n \<and> contact_lid c = Some l
                \<and> filter (matches n l) (Contacts (snd S)) = [c]"
          unfolding res using one cn_number by (intro exI [of _ ?u]) simp
        then show ?thesis
          by (simp add: byNumber Some True)
      next
        case False
        let ?ts = "map (\<lambda>t. if ticket_contactId t = contact_id cl
                            then t\<lparr> ticket_contactId := contact_id cn \<rparr> else t) (Tickets db)"
        let ?m = "cn\<lparr> contact_lid := contact_lid cl, contact_profilePicUrl := req_profilePicUrl req \<rparr>"
        let ?dbm = "emitContact ContactUpdate ?m
               (save_contact ?m
                  (db\<lparr> Tickets := ?ts,
                      Contacts := filter (\<lambda>c. contact_id c \<noteq> contact_id cl) (Contacts db) \<rparr>))"
        have res: "fst S = Inr ?m" "snd S = ?dbm"
          using False by (simp_all add: unfold byNumber Some Let_def)
        have one: "filter (matches n l) (Contacts ?dbm) = [?m]"
          using ok byNumber Some False by (rule merge_branch) (simp_all add: matches_def cn_number)
        have tickets: "Tickets ?dbm = ?ts"
          by (simp add: emitContact_def save_contact_def)
        have moved: "\<forall>t\<in>set ?ts. ticket_contactId t \<noteq> contact_id cl"
          using False by auto
        have gone: "\<forall>c\<in>set (Contacts ?dbm). contact_id c \<noteq> contact_id cl"
          using False by (auto simp: emitContact_def save_contact_def)
        have second: "\<exists>c. fst S = Inr c \<and> contact_number c = Some n \<and> contact_lid c = Some l
                \<and> filter (matches n l) (Contacts (snd S)) = [c]"
          unfolding res using one cn_number cl_lid by (intro exI [of _ ?m]) simp
        have f1: "fst S = Inr ?u"
          unfolding res(1) by (simp add: cl_lid)
        have f2: "Tickets (snd S) = ?ts"
          unfolding res(2) by (rule tickets)
        have f3: "\<forall>t\<in>set (Tickets (snd S)). ticket_contactId t \<noteq> contact_id cl"
          unfolding f2 by (rule moved)
        have f4: "\<forall>c\<in>set (Contacts (snd S)). contact_id c \<noteq> contact_id cl"
          unfolding res(2) by (rule gone)
        show ?thesis
        proof (intro conjI allI impI)
          fix cn' cl'
          assume "findByNumber db n = Some cn' \<and> findByLid db l = Some cl'
                  \<and> contact_id cn' \<noteq> contact_id cl'"
          with byNumber Some have eq: "cn' = cn" "cl' = cl" by simp_all
          show "fst S = Inr (cn'\<lparr> contact_lid := Some l,
              contact_profilePicUrl := req_profilePicUrl req \<rparr>)"
            unfolding eq by (rule f1)
          show "Tickets (snd S) = map (\<lambda>t. if ticket_contactId t = contact_id cl'
                            then t\<lparr> ticket_contactId := contact_id cn' \<rparr> else t) (Tickets db)"
            unfolding eq by (rule f2)
          show "\<forall>t\<in>set (Tickets (snd S)). ticket_contactId t \<noteq> contact_id cl'"
            unfolding eq by (rule f3)
          show "\<forall>c\<in>set (Contacts (snd S)). contact_id c \<noteq> contact_id cl'"
            unfolding eq by (rule f4)
        next
          from second show "\<exists>c. fst S = Inr c \<and> contact_number c = Some n \<and> contact_lid c = Some l
                \<and> filter (matches n l) (Contacts (snd S)) = [c]" .
        qed
      qed
    qed
  qed
  then show ?thesis
    unfolding S_def .
qed

theorem contact_upsert_merges_witness:
  "fst (CreateOrUpdateContactService ex_crm ex_contact_request)
     = Inr \<lparr> contact_id = 1, contact_name = ''Ana'', contact_number = Some ''5511999999999'',
             contact_lid = Some ''123456@lid'', contact_profilePicUrl = None,
             contact_isGroup = False, contact_email = [] \<rparr>
   \<and> filter (matches ''5511999999999'' ''123456@lid'')
        (Contacts (snd (CreateOrUpdateContactService ex_crm ex_contact_request)))
     = [\<lparr> contact_id = 1, contact_name = ''Ana'', contact_number = Some ''5511999999999'',
          contact_lid = Some ''123456@lid'', contact_profilePicUrl = None,
          contact_isGroup = False, contact_email = [] \<rparr>]
   \<and> map ticket_contactId (Tickets (snd (CreateOrUpdateContactService ex_crm ex_contact_request)))
     = [1, 1]"
proof -
  let ?n = "''5511999999999''" and ?l = "''123456@lid''"
  let ?cn = "\<lparr> contact_id = 1, contact_name = ''Ana'', contact_number = Some ?n,
               contact_lid = None, contact_profilePicUrl = None, contact_isGroup = False,
               contact_email = [] \<rparr>"
  let ?cl = "\<lparr> contact_id = 2, contact_name = ''Ana'', contact_number = None,
               contact_lid = Some ?l, contact_profilePicUrl = None,
               contact_isGroup = False, contact_email = [] \<rparr>"
  let ?S = "CreateOrUpdateContactService ex_crm ex_contact_request"
  have ok: "crm_ok ex_crm"
    by (simp add: crm_ok_def ex_crm_def)
  have n: "?n = (if req_isGroup ex_contact_request then req_number ex_contact_request
                 else digits_only (req_number ex_contact_request))"
    by (simp add: ex_contact_request_def digits_only_def is_digit_def)
  have l: "req_lid ex_contact_request = Some ?l"
    by (simp add: ex_contact_request_def)
  have nn: "?n \<noteq> []" and ln: "?l \<noteq> []"
    by simp_all
  have f: "findByNumber ex_crm ?n = Some ?cn \<and> findByLid ex_crm ?l = Some ?cl
      \<and> contact_id ?cn \<noteq> contact_id ?cl"
    by (simp add: findByNumber_def findByLid_def ex_crm_def)
  note T = contact_upsert_merges [OF ok n nn l ln]
  from T have "findByNumber ex_crm ?n = Some ?cn \<and> findByLid ex_crm ?l = Some ?cl
      \<and> contact_id ?cn \<noteq> contact_id ?cl \<longrightarrow>
      fst ?S = Inr (?cn\<lparr> contact_lid := Some ?l,
                        contact_profilePicUrl := req_profilePicUrl ex_contact_request \<rparr>)
      \<and> Tickets (snd ?S)
          = map (\<lambda>t. if ticket_contactId t = contact_id ?cl
                      then t\<lparr> ticket_contactId := contact_id ?cn \<rparr> else t) (Tickets ex_crm)
      \<and> (\<forall>t\<in>set (Tickets (snd ?S)). ticket_contactId t \<noteq> contact_id ?cl)
      \<and> (\<forall>c\<in>set (Contacts (snd ?S)). contact_id c \<noteq> contact_id ?cl)"
    by blast
  with f have m: "fst ?S = Inr (?cn\<lparr> contact_lid := Some ?l,
                        contact_profilePicUrl := req_profilePicUrl ex_contact_request \<rparr>)"
    and t: "Tickets (snd ?S)
          = map (\<lambda>t. if ticket_contactId t = contact_id ?cl
                      then t\<lparr> ticket_contactId := contact_id ?cn \<rparr> else t) (Tickets ex_crm)"
    by blast+
  from T obtain c where c: "fst ?S = Inr c"
      "filter (matches ?n ?l) (Contacts (snd ?S)) = [c]"
    by blast
  have a: "fst ?S = Inr \<lparr> contact_id = 1, contact_name = ''Ana'', contact_number = Some ?n,
             contact_lid = Some ?l, contact_profilePicUrl = None,
             contact_isGroup = False, contact_email = [] \<rparr>"
    unfolding m by (simp add: ex_contact_request_def)
  have b: "map ticket_contactId (Tickets (snd ?S)) = [1, 1]"
    unfolding t by (simp add: ex_crm_def)
  from a c show ?thesis
    using b by simp
qed

section \<open>The session registry\<close>

lemma registry_ok_iff:
  "registry_ok st \<longleftrightarrow>
     (\<forall>a<length (heap st). sessions st (sess_id (heap st ! a)) = Some a \<or> torn_down (heap st ! a))
     \<and> (\<forall>i a. sessions st i = Some a \<longrightarrow>
           a < length (heap st) \<and> sess_id (heap st ! a) = i \<and> \<not> ended (heap st ! a))"
  by (auto simp: registry_ok_def list_all_iff)

lemma filter_upt_eq: "b < n \<Longrightarrow> filter (\<lambda>a. a = b) [0..<n] = [b]"
  by (induction n) (auto simp: less_Suc_eq)

lemma live_handles_registered:
  assumes "registry_ok st"
  shows "live_handles st i = (case sessions st i of None \<Rightarrow> [] | Some a \<Rightarrow> [a])"
proof -
  have eq: "(sess_id (heap st ! a) = i \<and> \<not> ended (heap st ! a)) \<longleftrightarrow> sessions st i = Some a"
    if "a \<in> set [0..<length (heap st)]" for a
  proof
    assume live: "sess_id (heap st ! a) = i \<and> \<not> ended (heap st ! a)"
    then have "\<not> torn_down (heap st ! a)"
      by (simp add: torn_down_def)
    with assms that live show "sessions st i = Some a"
      by (auto simp: registry_ok_iff)
  next
    assume "sessions st i = Some a"
    with assms show "sess_id (heap st ! a) = i \<and> \<not> ended (heap st ! a)"
      by (simp add: registry_ok_iff)
  qed
  have "live_handles st i = filter (\<lambda>a. sessions st i = Some a) [0..<length (heap st)]"
    unfolding live_handles_def by (rule filter_cong) (simp_all add: eq)
  also have "\<dots> = (case sessions st i of None \<Rightarrow> [] | Some a \<Rightarrow> [a])"
  proof (cases "sessions st i")
    case None
    then show ?thesis by simp
  next
    case (Some b)
    with assms have "b < length (heap st)"
      by (simp add: registry_ok_iff)
    then have "filter (\<lambda>a. a = b) [0..<length (heap st)] = [b]"
      by (rule filter_upt_eq)
    moreover have "(\<lambda>a. Some b = Some a) = (\<lambda>a. a = b)"
      by auto
    ultimately show ?thesis
      using Some by simp
  qed
  finally show ?thesis .
qed

lemma fold_add_listener:
  "sess_id (fold add_listener evs s) = sess_id s \<and> ended (fold add_listener evs s) = ended s
   \<and> listeners (fold add_listener evs s) = listeners s @ evs"
  by (induction evs arbitrary: s) (simp_all add: add_listener_def)

lemma list_update_twice_nth: "xs[a := f (xs[a := y] ! a)] = xs[a := f y]"
  by (cases "a < length xs") (simp_all add: list_update_beyond)

lemma assertUnique_fields:
  "sessions (assertUnique i st) = (sessions st)(i := None)"
  "length (heap (assertUnique i st)) = length (heap st)"
  "heap (assertUnique i st) =
     (case sessions st i of
        None \<Rightarrow> heap st
      | Some a \<Rightarrow> (heap st)[a := (removeAllListeners ''connection.update'' (heap st ! a))
                                    \<lparr> ended := True \<rparr>])"
  by (auto simp: assertUnique_def emit_def on_socket_def list_update_twice_nth
      split: option.splits)

lemma init_socket_fields:
  "sessions (init_socket i me st) = (sessions st)(i \<mapsto> length (heap st))"
  "heap (init_socket i me st) =
     heap (assertUnique i st) @ [fold add_listener init_listeners (makeWASocket i me)]"
  by (simp_all add: init_socket_def Let_def on_socket_def assertUnique_fields(1,2))

lemma init_store_fields:
  "sessions (init_store i st) = sessions st" "heap (init_store i st) = heap st"
  by (simp_all add: init_store_def)

lemma torn_down_after_assertUnique:
  assumes "sessions st i = Some a" and "a < length (heap st)"
  shows "torn_down (heap (assertUnique i st) ! a)"
  using assms by (simp add: assertUnique_fields(3) torn_down_def removeAllListeners_def)

lemma old_socket_after_assertUnique:
  assumes "sessions st i = Some a" and "a < length (heap st)"
  shows "heap (assertUnique i st) ! a
     = (heap st ! a)\<lparr> listeners := filter (\<lambda>e. e \<noteq> ''connection.update'') (listeners (heap st ! a)),
                      ended := True \<rparr>"
  using assms by (simp add: assertUnique_fields(3) removeAllListeners_def)

lemma heap_assertUnique_other:
  assumes "sessions st i \<noteq> Some b"
  shows "heap (assertUnique i st) ! b = heap st ! b"
  using assms by (auto simp: assertUnique_fields(3) split: option.splits)

lemma assertUnique_keeps_ok:
  assumes "registry_ok st"
  shows "registry_ok (assertUnique i st)"
  unfolding registry_ok_iff
proof (intro conjI allI impI)
  fix b
  assume b: "b < length (heap (assertUnique i st))"
  then have bl: "b < length (heap st)"
    by (simp add: assertUnique_fields(2))
  show "sessions (assertUnique i st) (sess_id (heap (assertUnique i st) ! b)) = Some b
        \<or> torn_down (heap (assertUnique i st) ! b)"
  proof (cases "sessions st i = Some b")
    case True
    from True bl have "torn_down (heap (assertUnique i st) ! b)"
      by (rule torn_down_after_assertUnique)
    then show ?thesis ..
  next
    case False
    then have same: "heap (assertUnique i st) ! b = heap st ! b"
      by (rule heap_assertUnique_other)
    from assms bl have "sessions st (sess_id (heap st ! b)) = Some b \<or> torn_down (heap st ! b)"
      by (simp add: registry_ok_iff)
    then show ?thesis
    proof
      assume r: "sessions st (sess_id (heap st ! b)) = Some b"
      with False have "sess_id (heap st ! b) \<noteq> i" by auto
      with r show ?thesis
        by (simp add: same assertUnique_fields(1))
    next
      assume "torn_down (heap st ! b)"
      then show ?thesis by (simp add: same)
    qed
  qed
next
  fix j b
  assume "sessions (assertUnique i st) j = Some b"
  then have ji: "j \<noteq> i" and r: "sessions st j = Some b"
    by (auto simp: assertUnique_fields(1) split: if_splits)
  from assms r have p: "b < length (heap st)" "sess_id (heap st ! b) = j" "\<not> ended (heap st ! b)"
    by (simp_all add: registry_ok_iff)
  have "sessions st i \<noteq> Some b"
  proof
    assume "sessions st i = Some b"
    with assms have "sess_id (heap st ! b) = i" by (simp add: registry_ok_iff)
    with p(2) ji show False by simp
  qed
  then have same: "heap (assertUnique i st) ! b = heap st ! b"
    by (rule heap_assertUnique_other)
  show "b < length (heap (assertUnique i st))"
    using p(1) by (simp add: assertUnique_fields(2))
  show "sess_id (heap (assertUnique i st) ! b) = j"
    using p(2) by (simp add: same)
  show "\<not> ended (heap (assertUnique i st) ! b)"
    using p(3) by (simp add: same)
qed

lemma init_socket_keeps_ok:
  assumes "registry_ok st"
  shows "registry_ok (init_socket i me st)"
proof -
  let ?mid = "assertUnique i st"
  let ?new = "fold add_listener init_listeners (makeWASocket i me)"
  let ?n = "length (heap st)"
  have mid: "registry_ok ?mid"
    using assms by (rule assertUnique_keeps_ok)
  have len: "length (heap ?mid) = ?n"
    by (rule assertUnique_fields(2))
  have new: "sess_id ?new = i" "\<not> ended ?new"
    by (simp_all add: fold_add_listener makeWASocket_def)
  have h: "heap (init_socket i me st) = heap ?mid @ [?new]"
    by (rule init_socket_fields(2))
  have s: "sessions (init_socket i me st) = (sessions ?mid)(i \<mapsto> ?n)"
    by (simp add: init_socket_fields(1) assertUnique_fields(1))
  have none: "sessions ?mid i = None"
    by (simp add: assertUnique_fields(1))
  show ?thesis
    unfolding registry_ok_iff h s
  proof (intro conjI allI impI)
    fix b
    assume "b < length (heap ?mid @ [?new])"
    then consider "b = ?n" | "b < length (heap ?mid)"
      using len by (auto simp: less_Suc_eq)
    then show "((sessions ?mid)(i \<mapsto> ?n)) (sess_id ((heap ?mid @ [?new]) ! b)) = Some b
          \<or> torn_down ((heap ?mid @ [?new]) ! b)"
    proof cases
      case 1
      then show ?thesis
        using new(1) len by (simp add: nth_append)
    next
      case 2
      then have same: "(heap ?mid @ [?new]) ! b = heap ?mid ! b"
        by (simp add: nth_append)
      from mid 2 have "sessions ?mid (sess_id (heap ?mid ! b)) = Some b \<or> torn_down (heap ?mid ! b)"
        by (simp add: registry_ok_iff)
      then show ?thesis
      proof
        assume r: "sessions ?mid (sess_id (heap ?mid ! b)) = Some b"
        with none have "sess_id (heap ?mid ! b) \<noteq> i" by auto
        with r show ?thesis by (simp add: same)
      next
        assume "torn_down (heap ?mid ! b)"
        then show ?thesis by (simp add: same)
      qed
    qed
  next
    fix j b
    assume r: "((sessions ?mid)(i \<mapsto> ?n)) j = Some b"
    have "b < length (heap ?mid @ [?new])
        \<and> sess_id ((heap ?mid @ [?new]) ! b) = j \<and> \<not> ended ((heap ?mid @ [?new]) ! b)"
    proof (cases "j = i")
      case True
      with r have "b = ?n" by simp
      then show ?thesis
        using new len True by (simp add: nth_append)
    next
      case False
      with r have "sessions ?mid j = Some b" by simp
      with mid have "b < length (heap ?mid)" "sess_id (heap ?mid ! b) = j"
          "\<not> ended (heap ?mid ! b)"
        by (simp_all add: registry_ok_iff)
      then show ?thesis
        by (simp add: nth_append)
    qed
    then show "b < length (heap ?mid @ [?new])"
      and "sess_id ((heap ?mid @ [?new]) ! b) = j"
      and "\<not> ended ((heap ?mid @ [?new]) ! b)"
      by simp_all
  qed
qed

lemma init_store_keeps_ok: "registry_ok st \<Longrightarrow> registry_ok (init_store i st)"
  by (simp add: registry_ok_iff init_store_fields)

lemma run_init_step_keeps_ok: "registry_ok st \<Longrightarrow> registry_ok (run_init_step s st)"
  by (cases s) (simp_all add: init_socket_keeps_ok init_store_keeps_ok)

lemma fold_init_steps_keeps_ok:
  "registry_ok st \<Longrightarrow> registry_ok (fold run_init_step steps st)"
  by (induction steps arbitrary: st) (simp_all add: run_init_step_keeps_ok)

lemma run_init_step_registered:
  "sessions (run_init_step s st) i \<noteq> None \<longleftrightarrow> sessions st i \<noteq> None \<or> step_id s = Some i"
  by (cases s) (simp_all add: init_store_fields init_socket_fields(1) step_id_def)

lemma fold_init_steps_registered:
  "sessions (fold run_init_step steps st) i \<noteq> None \<longleftrightarrow>
     sessions st i \<noteq> None \<or> Some i \<in> step_id ` set steps"
proof (induction steps arbitrary: st)
  case Nil
  show ?case by simp
next
  case (Cons s steps)
  have "sessions (fold run_init_step (s # steps) st) i \<noteq> None \<longleftrightarrow>
      sessions (run_init_step s st) i \<noteq> None \<or> Some i \<in> step_id ` set steps"
    using Cons [of "run_init_step s st"] by simp
  also have "\<dots> \<longleftrightarrow> (sessions st i \<noteq> None \<or> step_id s = Some i)
      \<or> Some i \<in> step_id ` set steps"
    by (simp only: run_init_step_registered)
  also have "\<dots> \<longleftrightarrow> sessions st i \<noteq> None \<or> Some i \<in> step_id ` set (s # steps)"
    by auto
  finally show ?case .
qed

lemma initial_registry_ok: "registry_ok initial_wstate"
  by (simp add: registry_ok_iff initial_wstate_def)

text \<open>
  C1, as stated, fails: the socket that a second \<open>init\<close> replaces is ended and evicted, but
  its listeners are not all removed. \<open>assertUnique\<close> removes the listeners of
  \<open>connection.update\<close> only; the four others that \<open>init\<close> registered stay on the ended
  socket.
\<close>

theorem init_old_listeners_counterexample:
  "sessions (init 1 None initial_wstate) 1 = Some 0
   \<and> sessions (init 1 None (init 1 None initial_wstate)) 1 = Some 1
   \<and> ended (heap (init 1 None (init 1 None initial_wstate)) ! 0)
   \<and> listeners (heap (init 1 None (init 1 None initial_wstate)) ! 0)
       = [''creds.update'', ''messages.upsert'', ''messages.update'', ''message-receipt.update'']"
  by (simp add: init_def init_socket_def init_store_def assertUnique_def initial_wstate_def
      on_socket_def emit_def makeWASocket_def init_listeners_def add_listener_def
      removeAllListeners_def Let_def)

text \<open>
  C1, amended. In a registry where every socket is either the one registered under its id
  or ended without a listener of \<open>connection.update\<close> (as in the empty registry, and as
  every step of \<open>init\<close> keeps it), the step of \<open>init\<close> that makes the socket first takes
  the socket registered under the id, removes its listeners of \<open>connection.update\<close> and
  no others, calls \<open>end\<close> on it and evicts it, so that no live socket of the id is left,
  and only then appends the new socket and registers it: the new socket is the only live
  one of its id, and the old one is left as \<open>assertUnique\<close> made it. After any sequence of
  steps of any number of \<open>init\<close> calls, in any interleaving, every id has at most one live
  socket, and from the empty registry exactly one for each id a socket was made for.
\<close>

theorem init_keeps_one_live_handle:
  "(registry_ok st \<longrightarrow>
      registry_ok (init_socket i me st)
      \<and> sessions (assertUnique i st) i = None
      \<and> live_handles (assertUnique i st) i = []
      \<and> (\<forall>a. sessions st i = Some a \<longrightarrow>
            heap (assertUnique i st) ! a
              = (heap st ! a)\<lparr> listeners := filter (\<lambda>e. e \<noteq> ''connection.update'')
                                               (listeners (heap st ! a)),
                               ended := True \<rparr>
            \<and> heap (init_socket i me st) ! a = heap (assertUnique i st) ! a
            \<and> torn_down (heap (assertUnique i st) ! a)
            \<and> torn_down (heap (init_socket i me st) ! a))
      \<and> heap (init_socket i me st)
          = heap (assertUnique i st) @ [fold add_listener init_listeners (makeWASocket i me)]
      \<and> sessions (init_socket i me st) = (sessions st)(i \<mapsto> length (heap st))
      \<and> live_handles (init_socket i me st) i = [length (heap st)]
      \<and> registry_ok (fold run_init_step steps st)
      \<and> (\<forall>j. length (live_handles (fold run_init_step steps st) j) \<le> 1))
   \<and> registry_ok initial_wstate
   \<and> (\<forall>j. length (live_handles (fold run_init_step steps initial_wstate) j)
           = (if Some j \<in> step_id ` set steps then 1 else 0))"
proof -
  have step: "registry_ok (init_socket i me st)
      \<and> sessions (assertUnique i st) i = None
      \<and> live_handles (assertUnique i st) i = []
      \<and> (\<forall>a. sessions st i = Some a \<longrightarrow>
            heap (assertUnique i st) ! a
              = (heap st ! a)\<lparr> listeners := filter (\<lambda>e. e \<noteq> ''connection.update'')
                                               (listeners (heap st ! a)),
                               ended := True \<rparr>
            \<and> heap (init_socket i me st) ! a = heap (assertUnique i st) ! a
            \<and> torn_down (heap (assertUnique i st) ! a)
            \<and> torn_down (heap (init_socket i me st) ! a))
      \<and> heap (init_socket i me st)
          = heap (assertUnique i st) @ [fold add_listener init_listeners (makeWASocket i me)]
      \<and> sessions (init_socket i me st) = (sessions st)(i \<mapsto> length (heap st))
      \<and> live_handles (init_socket i me st) i = [length (heap st)]
      \<and> registry_ok (fold run_init_step steps st)
      \<and> (\<forall>j. length (live_handles (fold run_init_step steps st) j) \<le> 1)"
    if ok: "registry_ok st"
  proof -
    have ok': "registry_ok (init_socket i me st)"
      using ok by (rule init_socket_keeps_ok)
    have mid: "registry_ok (assertUnique i st)"
      using ok by (rule assertUnique_keeps_ok)
    have none: "sessions (assertUnique i st) i = None"
      by (simp add: assertUnique_fields(1))
    have no_live: "live_handles (assertUnique i st) i = []"
      by (simp add: live_handles_registered [OF mid] none)
    have torn: "heap (assertUnique i st) ! a
          = (heap st ! a)\<lparr> listeners := filter (\<lambda>e. e \<noteq> ''connection.update'')
                                           (listeners (heap st ! a)),
                           ended := True \<rparr>
        \<and> heap (init_socket i me st) ! a = heap (assertUnique i st) ! a
        \<and> torn_down (heap (assertUnique i st) ! a)
        \<and> torn_down (heap (init_socket i me st) ! a)" if "sessions st i = Some a" for a
    proof -
      from ok that have a: "a < length (heap st)"
        by (simp add: registry_ok_iff)
      from that a have old: "heap (assertUnique i st) ! a
          = (heap st ! a)\<lparr> listeners := filter (\<lambda>e. e \<noteq> ''connection.update'')
                                           (listeners (heap st ! a)),
                           ended := True \<rparr>"
        by (rule old_socket_after_assertUnique)
      from that a have t: "torn_down (heap (assertUnique i st) ! a)"
        by (rule torn_down_after_assertUnique)
      have same: "heap (init_socket i me st) ! a = heap (assertUnique i st) ! a"
        using a by (simp add: init_socket_fields(2) nth_append assertUnique_fields(2))
      from t same have "torn_down (heap (init_socket i me st) ! a)"
        by simp
      with old same t show ?thesis
        by blast
    qed
    have one: "live_handles (init_socket i me st) i = [length (heap st)]"
      by (simp add: live_handles_registered [OF ok'] init_socket_fields(1))
    have all: "registry_ok (fold run_init_step steps st)"
      using ok by (rule fold_init_steps_keeps_ok)
    have "length (live_handles (fold run_init_step steps st) j) \<le> 1" for j
      by (simp add: live_handles_registered [OF all] split: option.splits)
    then have le: "\<forall>j. length (live_handles (fold run_init_step steps st) j) \<le> 1"
      by blast
    have hp: "heap (init_socket i me st)
        = heap (assertUnique i st) @ [fold add_listener init_listeners (makeWASocket i me)]"
      by (rule init_socket_fields(2))
    have ss: "sessions (init_socket i me st) = (sessions st)(i \<mapsto> length (heap st))"
      by (rule init_socket_fields(1))
    from ok' none no_live torn hp ss one all le show ?thesis
      by blast
  qed
  have all0: "registry_ok (fold run_init_step steps initial_wstate)"
    using initial_registry_ok by (rule fold_init_steps_keeps_ok)
  have count: "length (live_handles (fold run_init_step steps initial_wstate) j)
      = (if Some j \<in> step_id ` set steps then 1 else 0)" for j
  proof -
    have "sessions (fold run_init_step steps initial_wstate) j \<noteq> None \<longleftrightarrow>
        Some j \<in> step_id ` set steps"
      using fold_init_steps_registered [of steps initial_wstate j]
      by (simp add: initial_wstate_def)
    then show ?thesis
      by (auto simp: live_handles_registered [OF all0] split: option.splits)
  qed
  show ?thesis
    using step initial_registry_ok count by blast
qed

theorem init_keeps_one_live_handle_witness:
  "length (live_handles
      (fold run_init_step [InitStore 1, InitStore 1, InitSocket 1 None, InitSocket 1 None]
         initial_wstate) 1) = 1
   \<and> live_handles (init_socket 1 None (init_socket 1 None initial_wstate)) 1 = [1]
   \<and> torn_down (heap (init_socket 1 None (init_socket 1 None initial_wstate)) ! 0)
   \<and> listeners (heap (init_socket 1 None (init_socket 1 None initial_wstate)) ! 0)
       = [''creds.update'', ''messages.upsert'', ''messages.update'', ''message-receipt.update'']"
proof -
  let ?steps = "[InitStore 1, InitStore 1, InitSocket 1 None, InitSocket 1 None]"
  let ?st = "init_socket 1 None initial_wstate"
  note T0 = init_keeps_one_live_handle [where st = initial_wstate and i = 1 and me = None
      and steps = ?steps]
  from T0 have ok0: "registry_ok initial_wstate" by blast
  with T0 have ok1: "registry_ok ?st"
      and s1: "sessions ?st = (sessions initial_wstate)(1 \<mapsto> length (heap initial_wstate))"
      and h1: "heap ?st = heap (assertUnique 1 initial_wstate)
                 @ [fold add_listener init_listeners (makeWASocket 1 None)]"
    by blast+
  have len: "length (heap ?st) = 1"
    unfolding h1 by (simp add: assertUnique_fields(2)) (simp add: initial_wstate_def)
  have reg: "sessions ?st 1 = Some 0"
    unfolding s1 by (simp add: initial_wstate_def)
  from T0 have "length (live_handles (fold run_init_step ?steps initial_wstate) 1)
      = (if Some 1 \<in> step_id ` set ?steps then 1 else 0)"
    by blast
  then have a: "length (live_handles (fold run_init_step ?steps initial_wstate) 1) = 1"
    by (simp add: step_id_def)
  note T1 = init_keeps_one_live_handle [where st = ?st and i = 1 and me = None and steps = "[]"]
  from T1 ok1 have "live_handles (init_socket 1 None ?st) 1 = [length (heap ?st)]"
    by blast
  then have b: "live_handles (init_socket 1 None ?st) 1 = [1]"
    unfolding len .
  from T1 ok1 have "\<forall>a. sessions ?st 1 = Some a \<longrightarrow> torn_down (heap (init_socket 1 None ?st) ! a)"
    by blast
  with reg have c: "torn_down (heap (init_socket 1 None ?st) ! 0)"
    by blast
  have first: "heap ?st ! 0 = fold add_listener init_listeners (makeWASocket 1 None)"
    unfolding h1 by (simp add: assertUnique_def initial_wstate_def)
  from T1 ok1 reg have "heap (assertUnique 1 ?st) ! 0
        = (heap ?st ! 0)\<lparr> listeners := filter (\<lambda>e. e \<noteq> ''connection.update'')
                                          (listeners (heap ?st ! 0)),
                          ended := True \<rparr>
      \<and> heap (init_socket 1 None ?st) ! 0 = heap (assertUnique 1 ?st) ! 0"
    by blast
  then have "heap (init_socket 1 None ?st) ! 0
      = (heap ?st ! 0)\<lparr> listeners := filter (\<lambda>e. e \<noteq> ''connection.update'')
                                        (listeners (heap ?st ! 0)),
                        ended := True \<rparr>"
    by simp
  then have kept: "listeners (heap (init_socket 1 None ?st) ! 0)
      = filter (\<lambda>e. e \<noteq> ''connection.update'') (listeners (heap ?st ! 0))"
    by simp
  have lis: "listeners (heap ?st ! 0) = init_listeners"
    unfolding first by (simp add: fold_add_listener makeWASocket_def)
  have d: "listeners (heap (init_socket 1 None ?st) ! 0)
      = [''creds.update'', ''messages.upsert'', ''messages.update'', ''message-receipt.update'']"
    unfolding kept lis by (simp add: init_listeners_def)
  from a b c d show ?thesis by simp
qed

section \<open>The credential debouncer\<close>

lemma creds_writes_emit:
  "creds_writes i (emit e st) =
     creds_writes i st @
     (case e of
        WhatsappUpdate j u \<Rightarrow> (if j = i then (case upd_session u of None \<Rightarrow> [] | Some c \<Rightarrow> [c]) else [])
      | _ \<Rightarrow> [])"
  by (simp add: creds_writes_def emit_def)

lemma creds_writes_fields:
  "creds_writes i (st\<lparr> credsDebounceTimers := ts \<rparr>) = creds_writes i st"
  "creds_writes i (st\<lparr> pendingCredsSaves := ps \<rparr>) = creds_writes i st"
  "creds_writes i (st\<lparr> now_ms := t \<rparr>) = creds_writes i st"
  by (simp_all add: creds_writes_def)

lemma emit_fields:
  "credsDebounceTimers (emit e st) = credsDebounceTimers st"
  "pendingCredsSaves (emit e st) = pendingCredsSaves st"
  "now_ms (emit e st) = now_ms st"
  "sessions (emit e st) = sessions st"
  "heap (emit e st) = heap st"
  "effects (emit e st) = effects st @ [e]"
  by (simp_all add: emit_def)

lemma filter_key_delete:
  "filter (\<lambda>t. fst t = i) (AList.delete k al) = (if k = i then [] else filter (\<lambda>t. fst t = i) al)"
  by (induction al) auto

lemma filter_key_update_fresh:
  "k \<notin> fst ` set al \<Longrightarrow>
     filter (\<lambda>t. fst t = i) (AList.update k v al)
       = filter (\<lambda>t. fst t = i) al @ (if k = i then [(k, v)] else [])"
  by (induction al) auto

lemma on_creds_update_state:
  "timers_of i (on_creds_update i c st) = [(i, now_ms st + 1000, c)]"
  "map_of (pendingCredsSaves (on_creds_update i c st)) i = Some c"
  "creds_writes i (on_creds_update i c st) = creds_writes i st"
  "now_ms (on_creds_update i c st) = now_ms st"
  "effects (on_creds_update i c st) = effects st"
  by (simp_all add: on_creds_update_def debouncedSaveCreds_def timers_of_def creds_writes_def
      filter_key_update_fresh AList.delete_notin_dom filter_key_delete AList.update_conv')

lemma timer_callback_other:
  assumes "fst t \<noteq> i"
  shows "timers_of i (timer_callback t st) = timers_of i st"
    and "map_of (pendingCredsSaves (timer_callback t st)) i = map_of (pendingCredsSaves st) i"
    and "creds_writes i (timer_callback t st) = creds_writes i st"
  using assms
  by (auto simp: timer_callback_def saveSessionCreds_def creds_writes_emit creds_writes_fields
      timers_of_def filter_key_delete emit_fields split: prod.splits)

lemma timer_callback_now: "now_ms (timer_callback t st) = now_ms st"
  by (simp add: timer_callback_def saveSessionCreds_def emit_fields split: prod.splits)

lemma fold_timer_callback_other:
  assumes "\<forall>t\<in>set ts. fst t \<noteq> i"
  shows "timers_of i (fold timer_callback ts st) = timers_of i st
     \<and> map_of (pendingCredsSaves (fold timer_callback ts st)) i = map_of (pendingCredsSaves st) i
     \<and> creds_writes i (fold timer_callback ts st) = creds_writes i st
     \<and> now_ms (fold timer_callback ts st) = now_ms st"
  using assms
  by (induction ts arbitrary: st) (simp_all add: timer_callback_other timer_callback_now)

lemma advance_within_window:
  assumes "timers_of i st = [(i, due, c)]" and "now_ms st + d < due"
  shows "timers_of i (advance d st) = [(i, due, c)]"
    and "map_of (pendingCredsSaves (advance d st)) i = map_of (pendingCredsSaves st) i"
    and "creds_writes i (advance d st) = creds_writes i st"
    and "now_ms (advance d st) = now_ms st + d"
proof -
  let ?st1 = "st\<lparr> now_ms := now_ms st + d \<rparr>"
  have other: "\<forall>t\<in>set (due_timers ?st1). fst t \<noteq> i"
  proof
    fix t
    assume "t \<in> set (due_timers ?st1)"
    then have t: "t \<in> set (credsDebounceTimers st)" "fst (snd t) \<le> now_ms st + d"
      by (simp_all add: due_timers_def)
    show "fst t \<noteq> i"
    proof
      assume "fst t = i"
      with t(1) have "t \<in> set (timers_of i st)"
        by (simp add: timers_of_def)
      with assms(1) have "t = (i, due, c)" by simp
      with t(2) assms(2) show False by simp
    qed
  qed
  note F = fold_timer_callback_other [OF other, of ?st1]
  have t1: "timers_of i ?st1 = timers_of i st"
    by (simp add: timers_of_def)
  show "timers_of i (advance d st) = [(i, due, c)]"
    using F t1 assms(1) by (simp add: advance_def Let_def)
  show "map_of (pendingCredsSaves (advance d st)) i = map_of (pendingCredsSaves st) i"
    using F by (simp add: advance_def Let_def)
  show "creds_writes i (advance d st) = creds_writes i st"
    using F by (simp add: advance_def Let_def creds_writes_fields)
  show "now_ms (advance d st) = now_ms st + d"
    using F by (simp add: advance_def Let_def)
qed

lemma flush_state:
  "effects (flushPendingCredsSave i st) = effects st @ pending_write i st"
  "timers_of i (flushPendingCredsSave i st) = []"
  "map_of (pendingCredsSaves (flushPendingCredsSave i st)) i = None"
  "pending_write i (flushPendingCredsSave i st) = []"
  "sessions (flushPendingCredsSave i st) = sessions st"
  "heap (flushPendingCredsSave i st) = heap st"
  by (auto simp: flushPendingCredsSave_def saveSessionCreds_def emit_def pending_write_def
      timers_of_def filter_key_delete AList.delete_conv' Let_def split: option.splits)

lemma flush_writes:
  "creds_writes i (flushPendingCredsSave i st) =
     creds_writes i st @ (case map_of (pendingCredsSaves st) i of None \<Rightarrow> [] | Some c \<Rightarrow> [c])"
  by (auto simp: flushPendingCredsSave_def saveSessionCreds_def creds_writes_emit
      creds_writes_fields Let_def split: option.splits)

lemma burst_collapses:
  assumes "\<forall>e\<in>set evs. fst e < 1000"
      and "timers_of i st = [(i, now_ms st + 1000, c0)]"
      and "map_of (pendingCredsSaves st) i = Some c0"
  shows "timers_of i (burst i evs st)
           = [(i, now_ms (burst i evs st) + 1000, last (c0 # map snd evs))]
     \<and> map_of (pendingCredsSaves (burst i evs st)) i = Some (last (c0 # map snd evs))
     \<and> creds_writes i (burst i evs st) = creds_writes i st"
  using assms
proof (induction evs arbitrary: st c0)
  case Nil
  then show ?case by simp
next
  case (Cons e evs)
  obtain d c where e: "e = (d, c)" by (cases e)
  with Cons.prems(1) have d: "d < 1000" by simp
  let ?st1 = "on_creds_update i c (advance d st)"
  have w: "creds_writes i (advance d st) = creds_writes i st"
    using Cons.prems(2) d by (intro advance_within_window(3) [where due = "now_ms st + 1000"]) simp_all
  have "timers_of i (burst i evs ?st1)
           = [(i, now_ms (burst i evs ?st1) + 1000, last (c # map snd evs))]
     \<and> map_of (pendingCredsSaves (burst i evs ?st1)) i = Some (last (c # map snd evs))
     \<and> creds_writes i (burst i evs ?st1) = creds_writes i ?st1"
    using Cons.prems(1) by (intro Cons.IH) (simp_all add: on_creds_update_state)
  then show ?case
    using w by (simp add: e on_creds_update_state(3))
qed

lemma timer_callback_own:
  "creds_writes i (timer_callback (i, due, c) st) = creds_writes i st @ [c]"
  "map_of (pendingCredsSaves (timer_callback (i, due, c) st)) i = None"
  "timers_of i (timer_callback (i, due, c) st) = []"
  by (simp_all add: timer_callback_def saveSessionCreds_def creds_writes_emit creds_writes_fields
      emit_fields timers_of_def filter_key_delete AList.delete_conv')

lemma fold_timer_callback_own:
  assumes "filter (\<lambda>t. fst t = i) ts = [(i, due, c)]"
  shows "creds_writes i (fold timer_callback ts st) = creds_writes i st @ [c]
     \<and> map_of (pendingCredsSaves (fold timer_callback ts st)) i = None"
  using assms
proof (induction ts arbitrary: st)
  case Nil
  then show ?case by simp
next
  case (Cons t ts)
  show ?case
  proof (cases "fst t = i")
    case True
    with Cons.prems have t: "t = (i, due, c)" and rest: "filter (\<lambda>t. fst t = i) ts = []"
      by simp_all
    from rest have "\<forall>t\<in>set ts. fst t \<noteq> i"
      by (simp add: filter_empty_conv)
    from fold_timer_callback_other [OF this, of "timer_callback t st"]
    show ?thesis
      by (simp add: t timer_callback_own)
  next
    case False
    with Cons.prems have "filter (\<lambda>t. fst t = i) ts = [(i, due, c)]" by simp
    from Cons.IH [OF this, of "timer_callback t st"] False
    show ?thesis
      by (simp add: timer_callback_other)
  qed
qed

lemma timer_fires:
  assumes "timers_of i st = [(i, due, c)]" and "due \<le> now_ms st + d"
  shows "creds_writes i (advance d st) = creds_writes i st @ [c]"
    and "map_of (pendingCredsSaves (advance d st)) i = None"
proof -
  let ?st1 = "st\<lparr> now_ms := now_ms st + d \<rparr>"
  have "filter (\<lambda>t. fst t = i) (due_timers ?st1)
      = sort_key (\<lambda>t. fst (snd t))
          (filter (\<lambda>t. fst (snd t) \<le> now_ms st + d) (timers_of i st))"
    by (simp add: due_timers_def timers_of_def filter_sort) (metis filter_filter conj_commute)
  also have "\<dots> = [(i, due, c)]"
    using assms by simp
  finally have one: "filter (\<lambda>t. fst t = i) (due_timers ?st1) = [(i, due, c)]" .
  from fold_timer_callback_own [OF one, of ?st1]
  show "creds_writes i (advance d st) = creds_writes i st @ [c]"
    and "map_of (pendingCredsSaves (advance d st)) i = None"
    by (simp_all add: advance_def Let_def creds_writes_fields)
qed

lemma on_socket_fields:
  "effects (on_socket a f st) = effects st"
  "sessions (on_socket a f st) = sessions st"
  "pendingCredsSaves (on_socket a f st) = pendingCredsSaves st"
  "credsDebounceTimers (on_socket a f st) = credsDebounceTimers st"
  by (simp_all add: on_socket_def)

lemma pending_write_cong:
  "pendingCredsSaves st' = pendingCredsSaves st \<Longrightarrow> pending_write i st' = pending_write i st"
  by (simp add: pending_write_def)

lemma removeSession_effects:
  "effects (removeSession i st) =
     effects st @ pending_write i st @
     (case sessions st i of None \<Rightarrow> [] | Some a \<Rightarrow> [SocketEnd a, WsClose a])"
  by (simp add: removeSession_def Let_def flush_state emit_fields on_socket_fields
      split: option.splits)

lemma logout_effects:
  "effects (logout found i st) =
     effects st @ pending_write i st @
     (case sessions st i of None \<Rightarrow> [] | Some a \<Rightarrow> [SocketLogout a, SocketEnd a, WsClose a]) @
     (if found
      then [WhatsappUpdate i \<lparr> upd_session = Some [], upd_status = Some ''DISCONNECTED'',
                              upd_qrcode = Some [], upd_retries = Some 0 \<rparr>, IoEmit i]
      else []) @
     [ClearSessionKeys i]"
proof -
  let ?st = "flushPendingCredsSave i st"
  let ?st1 = "case sessions ?st i of None \<Rightarrow> ?st | Some wbot \<Rightarrow> emit (SocketLogout wbot) ?st"
  have p: "pending_write i ?st1 = []"
    using flush_state(4) [of i st]
    by (simp add: pending_write_def emit_fields split: option.splits)
  have s: "sessions ?st1 i = sessions st i"
    by (simp add: flush_state emit_fields split: option.splits)
  have e: "effects ?st1 = effects st @ pending_write i st @
      (case sessions st i of None \<Rightarrow> [] | Some a \<Rightarrow> [SocketLogout a])"
    by (simp add: flush_state emit_fields split: option.splits)
  have "effects (removeSession i ?st1) = effects st @ pending_write i st @
      (case sessions st i of None \<Rightarrow> [] | Some a \<Rightarrow> [SocketLogout a, SocketEnd a, WsClose a])"
    unfolding removeSession_effects p s e by (simp split: option.splits)
  then show ?thesis
    by (simp add: logout_def Let_def emit_fields)
qed

lemma reconnect_effects:
  assumes "connection u = Some ConnClose" and "errorMessage u \<noteq> ''Intentional Logout''"
      and "statusCode u \<noteq> Some loggedOut" and "qr u = None"
  shows "effects (on_connection_update found i u st) =
     effects st @ pending_write i st @
     [WhatsappUpdate i (status_update ''OPENING'' None None), IoEmit i, Sleep 3000, InitCall i]"
  using assms
  by (simp add: on_connection_update_def on_open_and_qr_def Let_def emit_fields flush_state)

lemma open_effects:
  assumes "connection u = Some ConnOpen" and "qr u = None"
  shows "effects (on_connection_update found i u st) =
     effects st @ pending_write i st @
     [WhatsappUpdate i (status_update ''CONNECTED'' (Some []) (Some 0))] @
     (if found then [IoEmit i] else [])"
    and "pending_write i (on_connection_update found i u st) = []"
    and "timers_of i (on_connection_update found i u st) = []"
  using assms flush_state(2,4) [of i st]
  by (simp_all add: on_connection_update_def on_open_and_qr_def Let_def emit_fields flush_state
      pending_write_def timers_of_def)

text \<open>
  C2. A credential event of a connection leaves exactly one timer for it, due 1000 ms
  later and holding the event's value, whatever timer it had before; left alone, that
  timer writes the value once. After a burst of events that starts in any state, each
  less than 1000 ms after the one before, a flush less than 1000 ms after the last event
  adds exactly one write of credentials for the connection to those made before the
  burst, that of the last event's value, and leaves neither a timer nor a pending value.
  The listener of \<open>connection.update\<close> performs the flush (the write of the pending value)
  before the row is set to \<open>OPENING\<close> and \<open>init\<close> is called again, and before the row is set
  to \<open>CONNECTED\<close>; \<open>logout\<close> performs it before the socket is told to log out.
\<close>

theorem creds_debounce:
  "timers_of i (on_creds_update i c st) = [(i, now_ms st + 1000, c)]
   \<and> map_of (pendingCredsSaves (on_creds_update i c st)) i = Some c
   \<and> creds_writes i (advance 1000 (on_creds_update i c st)) = creds_writes i st @ [c]
   \<and> ((\<forall>e\<in>set evs. fst e < 1000) \<and> d < 1000 \<longrightarrow>
        creds_writes i
          (flushPendingCredsSave i (advance d (burst i evs (on_creds_update i c st))))
          = creds_writes i st @ [last (c # map snd evs)])
   \<and> timers_of i (flushPendingCredsSave i st) = []
   \<and> pending_write i (flushPendingCredsSave i st) = []
   \<and> (connection u = Some ConnClose \<and> errorMessage u \<noteq> ''Intentional Logout''
       \<and> statusCode u \<noteq> Some loggedOut \<and> qr u = None \<longrightarrow>
        effects (on_connection_update found i u st) =
          effects st @ pending_write i st @
          [WhatsappUpdate i (status_update ''OPENING'' None None), IoEmit i, Sleep 3000,
           InitCall i])
   \<and> (connection u = Some ConnOpen \<and> qr u = None \<longrightarrow>
        effects (on_connection_update found i u st) =
          effects st @ pending_write i st @
          [WhatsappUpdate i (status_update ''CONNECTED'' (Some []) (Some 0))] @
          (if found then [IoEmit i] else [])
        \<and> pending_write i (on_connection_update found i u st) = []
        \<and> timers_of i (on_connection_update found i u st) = [])
   \<and> effects (logout found i st) =
        effects st @ pending_write i st @
        (case sessions st i of None \<Rightarrow> [] | Some a \<Rightarrow> [SocketLogout a, SocketEnd a, WsClose a]) @
        (if found
         then [WhatsappUpdate i \<lparr> upd_session = Some [], upd_status = Some ''DISCONNECTED'',
                                 upd_qrcode = Some [], upd_retries = Some 0 \<rparr>, IoEmit i]
         else []) @
        [ClearSessionKeys i]"
proof -
  let ?st0 = "on_creds_update i c st"
  have fire: "creds_writes i (advance 1000 ?st0) = creds_writes i st @ [c]"
    using timer_fires(1) [of i ?st0 "now_ms st + 1000" c 1000]
    by (simp add: on_creds_update_state)
  have collapse: "creds_writes i (flushPendingCredsSave i (advance d (burst i evs ?st0)))
      = creds_writes i st @ [last (c # map snd evs)]"
    if evs: "\<forall>e\<in>set evs. fst e < 1000" and d: "d < 1000"
  proof -
    let ?b = "burst i evs ?st0"
    have b: "timers_of i ?b = [(i, now_ms ?b + 1000, last (c # map snd evs))]
       \<and> map_of (pendingCredsSaves ?b) i = Some (last (c # map snd evs))
       \<and> creds_writes i ?b = creds_writes i ?st0"
      using evs by (rule burst_collapses) (simp_all add: on_creds_update_state)
    then have t: "timers_of i ?b = [(i, now_ms ?b + 1000, last (c # map snd evs))]" by blast
    have w: "creds_writes i (advance d ?b) = creds_writes i ?b"
      using t d by (intro advance_within_window(3) [where due = "now_ms ?b + 1000"]) simp_all
    have p: "map_of (pendingCredsSaves (advance d ?b)) i = Some (last (c # map snd evs))"
      using advance_within_window(2) [OF t, of d] d b by simp
    show ?thesis
      using b w p by (simp add: flush_writes on_creds_update_state(3))
  qed
  show ?thesis
    using fire collapse
      reconnect_effects [where u = u and found = found and i = i and st = st]
      open_effects [where u = u and found = found and i = i and st = st]
    by (simp add: on_creds_update_state flush_state logout_effects)
qed

theorem creds_debounce_witness:
  "creds_writes 1
     (flushPendingCredsSave 1
        (advance 300 (burst 1 [(200, ''C2''), (999, ''C3'')] (on_creds_update 1 ''C1'' initial_wstate))))
     = [''C3'']
   \<and> effects (on_connection_update True 1
        \<lparr> connection = Some ConnOpen, statusCode = None, errorMessage = [], qr = None \<rparr>
        (on_creds_update 1 ''C1'' initial_wstate))
     = pending_write 1 (on_creds_update 1 ''C1'' initial_wstate) @
       [WhatsappUpdate 1 (status_update ''CONNECTED'' (Some []) (Some 0)), IoEmit 1]
   \<and> pending_write 1 (on_creds_update 1 ''C1'' initial_wstate)
     = [WhatsappUpdate 1 \<lparr> upd_session = Some ''C1'', upd_status = Some ''CONNECTED'',
                            upd_qrcode = Some [], upd_retries = None \<rparr>]"
proof -
  let ?st = "on_creds_update 1 ''C1'' initial_wstate"
  have w0: "creds_writes 1 initial_wstate = []"
    by (simp add: creds_writes_def initial_wstate_def)
  have e0: "effects ?st = []"
    by (simp add: on_creds_update_state(5) initial_wstate_def)
  note T = creds_debounce [where i = 1 and c = "''C1''" and st = initial_wstate
      and evs = "[(200, ''C2''), (999, ''C3'')]" and d = 300]
  from T have "(\<forall>e\<in>set [(200::nat, ''C2''), (999, ''C3'')]. fst e < 1000) \<and> (300::nat) < 1000 \<longrightarrow>
      creds_writes 1
        (flushPendingCredsSave 1 (advance 300 (burst 1 [(200, ''C2''), (999, ''C3'')] ?st)))
        = creds_writes 1 initial_wstate @ [last (''C1'' # map snd [(200::nat, ''C2''), (999, ''C3'')])]"
    by blast
  then have a: "creds_writes 1
        (flushPendingCredsSave 1 (advance 300 (burst 1 [(200, ''C2''), (999, ''C3'')] ?st)))
      = [''C3'']"
    unfolding w0 by simp
  note U = creds_debounce [where i = 1 and st = ?st and found = True
      and u = "\<lparr> connection = Some ConnOpen, statusCode = None, errorMessage = [], qr = None \<rparr>"]
  from U have b: "effects (on_connection_update True 1
        \<lparr> connection = Some ConnOpen, statusCode = None, errorMessage = [], qr = None \<rparr> ?st)
      = pending_write 1 ?st @
        [WhatsappUpdate 1 (status_update ''CONNECTED'' (Some []) (Some 0)), IoEmit 1]"
    unfolding e0 by simp
  from T have "map_of (pendingCredsSaves ?st) 1 = Some ''C1''"
    by blast
  then have c: "pending_write 1 ?st
      = [WhatsappUpdate 1 \<lparr> upd_session = Some ''C1'', upd_status = Some ''CONNECTED'',
                             upd_qrcode = Some [], upd_retries = None \<rparr>]"
    by (simp add: pending_write_def)
  from a b c show ?thesis by simp
qed

end
